theory Spec2Isabelle
  imports Complex_Main "HOL-Library.Log_Nat" "HOL-Library.Sublist"
begin

section \<open>The host language: text, integers and floats of Python\<close>

text \<open>
  A Python \<open>str\<close> is the list of its code points, so that \<open>len\<close>, indexing and the
  lexer's column count see one element per character. \<open>ascii\<close> embeds an ASCII literal.
\<close>

type_synonym pystr = "nat list"

definition ascii :: "string \<Rightarrow> pystr" where
  "ascii s = map of_char s"

text \<open>\<open>sep.join(xs)\<close>.\<close>

fun join :: "pystr \<Rightarrow> pystr list \<Rightarrow> pystr" where
  "join sep [] = []"
| "join sep [x] = x"
| "join sep (x # y # ys) = x @ sep @ join sep (y # ys)"

text \<open>\<open>str(n)\<close> for an integer: decimal digits, a minus sign when negative.\<close>

fun str_nat :: "nat \<Rightarrow> pystr" where
  "str_nat n = (if n < 10 then [48 + n] else str_nat (n div 10) @ [48 + n mod 10])"

declare str_nat.simps [simp del]

definition str_int :: "int \<Rightarrow> pystr" where
  "str_int i = (if i < 0 then 45 # str_nat (nat (- i)) else str_nat (nat i))"

text \<open>
  \<open>s * n\<close> for a string and an integer: empty when \<open>n \<le> 0\<close>. (The model has no bound on
  the length of a string, where Python would run out of memory.)
\<close>

definition str_repeat :: "pystr \<Rightarrow> int \<Rightarrow> pystr" where
  "str_repeat s n = concat (replicate (nat n) s)"

subsection \<open>Floats\<close>

text \<open>
  A Python \<open>float\<close> is an IEEE 754 binary64 number: a sign and a magnitude that is a
  rational of the form \<open>m * 2^e\<close> with \<open>m < 2^53\<close> and \<open>e \<ge> -1074\<close>, or an infinity, or
  not-a-number. Every arithmetic operation computes the exact rational result and rounds
  it to the nearest such number, ties to the even mantissa.
\<close>

datatype pyfloat = Finite bool rat | Infinity bool | NaN

fun fl_val :: "pyfloat \<Rightarrow> rat" where
  "fl_val (Finite s m) = (if s then - m else m)"
| "fl_val _ = 0"

definition bpow :: "nat \<Rightarrow> int \<Rightarrow> rat" where
  "bpow b e = (if 0 \<le> e then of_nat b ^ nat e else 1 / (of_nat b ^ nat (- e)))"

text \<open>For \<open>x > 0\<close> the integer \<open>e\<close> with \<open>b^e \<le> x < b^(e+1)\<close>.\<close>

definition ilog :: "nat \<Rightarrow> rat \<Rightarrow> int" where
  "ilog b x =
     (let e0 = (if 1 \<le> x then int (floorlog b (nat \<lfloor>x\<rfloor>)) - 1
                else - int (floorlog b (nat \<lfloor>1 / x\<rfloor>)))
      in if x < bpow b e0 then e0 - 1
         else if bpow b (e0 + 1) \<le> x then e0 + 1
         else e0)"

definition round_half_even :: "rat \<Rightarrow> int" where
  "round_half_even x =
     (let f = \<lfloor>x\<rfloor>; d = x - of_int f
      in if d < 1 / 2 then f
         else if 1 / 2 < d then f + 1
         else if even f then f else f + 1)"

text \<open>
  Rounding of an exact result to binary64: 53 bits of mantissa, the exponent not below
  that of the subnormal numbers, overflow to infinity. A result that rounds to zero keeps
  its sign.
\<close>

definition fl_round :: "rat \<Rightarrow> pyfloat" where
  "fl_round q =
     (if q = 0 then Finite False 0
      else let a = \<bar>q\<bar>;
               e = max (ilog 2 a) (- 1022);
               u = bpow 2 (e - 52);
               r = of_int (round_half_even (a / u)) * u
           in if bpow 2 1024 \<le> r then Infinity (q < 0) else Finite (q < 0) r)"

fun fl_neg :: "pyfloat \<Rightarrow> pyfloat" where
  "fl_neg (Finite s m) = Finite (\<not> s) m"
| "fl_neg (Infinity s) = Infinity (\<not> s)"
| "fl_neg NaN = NaN"

fun fl_add :: "pyfloat \<Rightarrow> pyfloat \<Rightarrow> pyfloat" where
  "fl_add NaN _ = NaN"
| "fl_add _ NaN = NaN"
| "fl_add (Infinity s) (Infinity t) = (if s = t then Infinity s else NaN)"
| "fl_add (Infinity s) (Finite _ _) = Infinity s"
| "fl_add (Finite _ _) (Infinity t) = Infinity t"
| "fl_add (Finite s m) (Finite t n) =
     (let q = fl_val (Finite s m) + fl_val (Finite t n)
      in if q = 0 then Finite (s \<and> t) 0 else fl_round q)"

definition fl_sub :: "pyfloat \<Rightarrow> pyfloat \<Rightarrow> pyfloat" where
  "fl_sub x y = fl_add x (fl_neg y)"

fun fl_mul :: "pyfloat \<Rightarrow> pyfloat \<Rightarrow> pyfloat" where
  "fl_mul NaN _ = NaN"
| "fl_mul _ NaN = NaN"
| "fl_mul (Infinity s) (Infinity t) = Infinity (s \<noteq> t)"
| "fl_mul (Infinity s) (Finite t n) = (if n = 0 then NaN else Infinity (s \<noteq> t))"
| "fl_mul (Finite s m) (Infinity t) = (if m = 0 then NaN else Infinity (s \<noteq> t))"
| "fl_mul (Finite s m) (Finite t n) =
     (if m * n = 0 then Finite (s \<noteq> t) 0
      else fl_round (fl_val (Finite s m) * fl_val (Finite t n)))"

text \<open>Division by a divisor that is not zero (the callers test for zero first).\<close>

fun fl_div :: "pyfloat \<Rightarrow> pyfloat \<Rightarrow> pyfloat" where
  "fl_div NaN _ = NaN"
| "fl_div _ NaN = NaN"
| "fl_div (Infinity s) (Infinity t) = NaN"
| "fl_div (Infinity s) (Finite t n) = Infinity (s \<noteq> t)"
| "fl_div (Finite s m) (Infinity t) = Finite (s \<noteq> t) 0"
| "fl_div (Finite s m) (Finite t n) =
     (if m = 0 then Finite (s \<noteq> t) 0
      else fl_round (fl_val (Finite s m) / fl_val (Finite t n)))"

fun fl_lt :: "pyfloat \<Rightarrow> pyfloat \<Rightarrow> bool" where
  "fl_lt NaN _ = False"
| "fl_lt _ NaN = False"
| "fl_lt (Infinity s) (Infinity t) = (s \<and> \<not> t)"
| "fl_lt (Infinity s) (Finite _ _) = s"
| "fl_lt (Finite _ _) (Infinity t) = (\<not> t)"
| "fl_lt (Finite s m) (Finite t n) = (fl_val (Finite s m) < fl_val (Finite t n))"

fun fl_eq :: "pyfloat \<Rightarrow> pyfloat \<Rightarrow> bool" where
  "fl_eq NaN _ = False"
| "fl_eq _ NaN = False"
| "fl_eq (Infinity s) (Infinity t) = (s = t)"
| "fl_eq (Infinity s) (Finite _ _) = False"
| "fl_eq (Finite _ _) (Infinity t) = False"
| "fl_eq (Finite s m) (Finite t n) = (fl_val (Finite s m) = fl_val (Finite t n))"

definition fl_le :: "pyfloat \<Rightarrow> pyfloat \<Rightarrow> bool" where
  "fl_le x y = (fl_lt x y \<or> fl_eq x y)"

fun fl_is_zero :: "pyfloat \<Rightarrow> bool" where
  "fl_is_zero (Finite s m) = (m = 0)"
| "fl_is_zero _ = False"

subsection \<open>\<open>repr\<close> of a float\<close>

text \<open>
  \<open>str(x)\<close> of a float is the shortest decimal digit string that rounds back to \<open>x\<close>
  (the closest to \<open>x\<close> among the shortest), printed in fixed notation when the decimal
  point lies within \<open>-4 < p \<le> 16\<close> and in exponent notation otherwise.
  \<open>repr_cand x n\<close> gives the \<open>n\<close>-digit candidates as (digits, exponent of the last digit).
\<close>

definition repr_cand :: "rat \<Rightarrow> nat \<Rightarrow> (int \<times> int) list" where
  "repr_cand x n =
     (let k = ilog 10 x + 1 - int n;
          lo = \<lfloor>x / bpow 10 k\<rfloor>;
          ok = (\<lambda>c. fl_round (of_int c * bpow 10 k) = Finite False x);
          dlo = x - of_int lo * bpow 10 k;
          dhi = of_int (lo + 1) * bpow 10 k - x
      in if ok lo \<and> ok (lo + 1)
         then (if dlo < dhi \<or> (dlo = dhi \<and> even lo) then [(lo, k)] else [(lo + 1, k)])
         else if ok lo then [(lo, k)]
         else if ok (lo + 1) then [(lo + 1, k)]
         else [])"

definition shortest_digits :: "rat \<Rightarrow> int \<times> int" where
  "shortest_digits x =
     (case concat (map (repr_cand x) [1 ..< 18]) of
        [] \<Rightarrow> (\<lfloor>x / bpow 10 (ilog 10 x - 16)\<rfloor>, ilog 10 x - 16)
      | c # _ \<Rightarrow> c)"

fun strip_zeros :: "pystr \<Rightarrow> pystr" where
  "strip_zeros ds = (if ds \<noteq> [] \<and> last ds = 48 \<and> butlast ds \<noteq> []
                     then strip_zeros (butlast ds) else ds)"

declare strip_zeros.simps [simp del]

definition fmt_exp :: "int \<Rightarrow> pystr" where
  "fmt_exp e =
     (let ds = str_nat (nat \<bar>e\<bar>)
      in [101, if e < 0 then 45 else 43] @ (if length ds < 2 then 48 # ds else ds))"

definition fl_repr_pos :: "rat \<Rightarrow> pystr" where
  "fl_repr_pos x =
     (let (c, k) = shortest_digits x;
          full = str_nat (nat c);
          p = k + int (length full);
          ds = strip_zeros full;
          n = int (length ds)
      in if p \<le> - 4 \<or> 16 < p
         then (if n = 1 then ds else take 1 ds @ [46] @ drop 1 ds) @ fmt_exp (p - 1)
         else if p \<le> 0 then [48, 46] @ replicate (nat (- p)) 48 @ ds
         else if n \<le> p then ds @ replicate (nat (p - n)) 48 @ [46, 48]
         else take (nat p) ds @ [46] @ drop (nat p) ds)"

fun fl_repr :: "pyfloat \<Rightarrow> pystr" where
  "fl_repr NaN = ascii ''nan''"
| "fl_repr (Infinity s) = (if s then ascii ''-inf'' else ascii ''inf'')"
| "fl_repr (Finite s m) =
     (if s then [45] else []) @ (if m = 0 then ascii ''0.0'' else fl_repr_pos m)"

section \<open>Values and errors\<close>

text \<open>
  The values a visit can return: \<open>None\<close> (statements without a result), booleans,
  unbounded integers, floats and text.
\<close>

datatype pyvalue = VNone | VBool bool | VInt int | VFloat pyfloat | VStr pystr

text \<open>
  The exception classes of the program, each with its message, and \<open>OtherException\<close> for
  every exception of the host that is not a \<open>MyLangError\<close> (\<open>OverflowError\<close>,
  \<open>ValueError\<close>).
\<close>

datatype exn = LexerError pystr | ParserError pystr | RuntimeError pystr | OtherException pystr

text \<open>\<open>str(e)\<close>.\<close>

fun exn_str :: "exn \<Rightarrow> pystr" where
  "exn_str (LexerError m) = m"
| "exn_str (ParserError m) = m"
| "exn_str (RuntimeError m) = m"
| "exn_str (OtherException m) = m"

section \<open>Tokens\<close>

datatype token_type =
  PRINT | STRING | NUMBER | IDENTIFIER | SEMICOLON | LPAREN | RPAREN | LBRACE | RBRACE
| EOF | ASSIGN | IF | ELSE | WHILE | COMPARISON | PLUS | MINUS | MULTIPLY | DIVIDE
| IMPORT | TRY | CATCH

text \<open>
  The value of each \<open>TokenType\<close> attribute: the Chinese name of the token kind, as it
  appears in the parser's messages. For the seven keywords it is the keyword itself.
\<close>

fun type_name :: "token_type \<Rightarrow> pystr" where
  "type_name PRINT = [25171, 21360]"
| "type_name STRING = [23383, 31526, 20018]"
| "type_name NUMBER = [25968, 23383]"
| "type_name IDENTIFIER = [26631, 35782, 31526]"
| "type_name SEMICOLON = [20998, 21495]"
| "type_name LPAREN = [24038, 25324, 21495]"
| "type_name RPAREN = [21491, 25324, 21495]"
| "type_name LBRACE = [24038, 22823, 25324, 21495]"
| "type_name RBRACE = [21491, 22823, 25324, 21495]"
| "type_name EOF = [25991, 20214, 32467, 26463]"
| "type_name ASSIGN = [36171, 20540]"
| "type_name IF = [22914, 26524]"
| "type_name ELSE = [21542, 21017]"
| "type_name WHILE = [24490, 29615]"
| "type_name COMPARISON = [27604, 36739]"
| "type_name PLUS = [21152, 21495]"
| "type_name MINUS = [20943, 21495]"
| "type_name MULTIPLY = [20056, 21495]"
| "type_name DIVIDE = [38500, 21495]"
| "type_name IMPORT = [23548, 20837]"
| "type_name TRY = [23581, 35797]"
| "type_name CATCH = [25429, 33719]"

record token =
  tok_type :: token_type
  tok_value :: pyvalue
  tok_line :: nat
  tok_column :: nat

definition Token :: "token_type \<Rightarrow> pyvalue \<Rightarrow> nat \<Rightarrow> nat \<Rightarrow> token" where
  "Token t v l c = \<lparr>tok_type = t, tok_value = v, tok_line = l, tok_column = c\<rparr>"

section \<open>The lexer\<close>

text \<open>
  The character classes of Python's \<open>str\<close> methods. \<open>isspace\<close> is complete. \<open>isdigit\<close>
  and \<open>isalpha\<close> follow the Unicode database in Python; the model covers ASCII and the
  block of the CJK unified ideographs (U+4E00 to U+9FFF), in which the keywords lie, and
  takes every other character as neither a digit nor a letter.
\<close>

definition isspace :: "nat \<Rightarrow> bool" where
  "isspace c = (c \<in> set [9, 10, 11, 12, 13, 28, 29, 30, 31, 32, 133, 160, 5760, 8192, 8193,
     8194, 8195, 8196, 8197, 8198, 8199, 8200, 8201, 8202, 8232, 8233, 8239, 8287, 12288])"

definition isdigit :: "nat \<Rightarrow> bool" where
  "isdigit c = (48 \<le> c \<and> c \<le> 57)"

definition isalpha :: "nat \<Rightarrow> bool" where
  "isalpha c = ((65 \<le> c \<and> c \<le> 90) \<or> (97 \<le> c \<and> c \<le> 122) \<or> (19968 \<le> c \<and> c \<le> 40959))"

definition isalnum :: "nat \<Rightarrow> bool" where
  "isalnum c = (isalpha c \<or> isdigit c)"

text \<open>
  \<open>int(s)\<close> and \<open>float(s)\<close> on the strings that \<open>number\<close> builds: ASCII digits, for a float
  with one dot among them. Both raise \<open>ValueError\<close> when there is no digit. \<open>float\<close> rounds
  the decimal number to the nearest float. (The limit that recent versions of Python put
  on the number of digits of \<open>int(s)\<close> is not modelled.)
\<close>

definition digits_val :: "pystr \<Rightarrow> nat" where
  "digits_val ds = foldl (\<lambda>a d. 10 * a + (d - 48)) 0 ds"

definition py_int :: "pystr \<Rightarrow> exn + int" where
  "py_int s =
     (if s = [] then Inl (OtherException (ascii ''invalid literal for int() with base 10: '' @ [39, 39]))
      else Inr (int (digits_val s)))"

definition py_float :: "pystr \<Rightarrow> exn + pyfloat" where
  "py_float s =
     (let ip = takeWhile (\<lambda>c. c \<noteq> 46) s; fp = drop (length ip + 1) s
      in if ip = [] \<and> fp = []
         then Inl (OtherException (ascii ''could not convert string to float: '' @ [39] @ s @ [39]))
         else Inr (fl_round (of_nat (digits_val (ip @ fp)) / of_nat (10 ^ length fp))))"

record lexer =
  src_text :: pystr
  filename :: pystr
  pos :: nat
  line :: nat
  column :: nat
  current_char :: "nat option"

definition Lexer :: "pystr \<Rightarrow> pystr \<Rightarrow> lexer" where
  "Lexer t f = \<lparr>src_text = t, filename = f, pos = 0, line = 1, column = 1,
                current_char = (if t \<noteq> [] then Some (t ! 0) else None)\<rparr>"

text \<open>The exception that \<open>Lexer.error\<close> raises: file, line and column before the message.\<close>

definition lexer_error :: "lexer \<Rightarrow> pystr \<Rightarrow> exn" where
  "lexer_error l msg =
     LexerError (filename l @ [58] @ str_nat (line l) @ [58] @ str_nat (column l) @ [58, 32] @ msg)"

definition advance :: "lexer \<Rightarrow> lexer" where
  "advance l =
     (let l1 = (if current_char l = Some 10 then l\<lparr>line := line l + 1, column := 1\<rparr>
                else l\<lparr>column := column l + 1\<rparr>);
          p = pos l + 1
      in l1\<lparr>pos := p,
             current_char := (if length (src_text l) \<le> p then None else Some (src_text l ! p))\<rparr>)"

text \<open>Whether there is a current character and it satisfies \<open>P\<close>.\<close>

definition cur_is :: "(nat \<Rightarrow> bool) \<Rightarrow> lexer \<Rightarrow> bool" where
  "cur_is P l = (case current_char l of None \<Rightarrow> False | Some c \<Rightarrow> P c)"

text \<open>What is left to read; every \<open>advance\<close> on a current character lowers it.\<close>

definition remaining :: "lexer \<Rightarrow> nat" where
  "remaining l = (case current_char l of None \<Rightarrow> 0 | Some _ \<Rightarrow> Suc (length (src_text l) - pos l))"

lemma remaining_advance: "current_char l \<noteq> None \<Longrightarrow> remaining (advance l) < remaining l"
  by (auto simp: remaining_def advance_def Let_def split: option.splits)

lemma cur_is_remaining: "cur_is P l \<Longrightarrow> remaining (advance l) < remaining l"
  by (rule remaining_advance) (auto simp: cur_is_def split: option.splits)

function skip_whitespace :: "lexer \<Rightarrow> lexer" where
  "skip_whitespace l = (if cur_is isspace l then skip_whitespace (advance l) else l)"
  by pat_completeness auto
termination
  by (relation "measure remaining") (auto simp: cur_is_remaining)

declare skip_whitespace.simps [simp del]

function skip_to_newline :: "lexer \<Rightarrow> lexer" where
  "skip_to_newline l = (if cur_is (\<lambda>c. c \<noteq> 10) l then skip_to_newline (advance l) else l)"
  by pat_completeness auto
termination
  by (relation "measure remaining") (auto simp: cur_is_remaining)

declare skip_to_newline.simps [simp del]

definition skip_comment :: "lexer \<Rightarrow> lexer" where
  "skip_comment l =
     (let l1 = skip_to_newline l
      in if current_char l1 = Some 10 then advance l1 else l1)"

text \<open>The character an escape sequence stands for: \<open>n\<close>, \<open>t\<close>, the quote, the backslash.\<close>

definition escape_char :: "nat option \<Rightarrow> nat option" where
  "escape_char c =
     (if c = Some 110 then Some 10
      else if c = Some 116 then Some 9
      else if c = Some 34 then Some 34
      else if c = Some 92 then Some 92
      else None)"

text \<open>The current character in an f-string: itself, or \<open>None\<close>.\<close>

definition char_str :: "nat option \<Rightarrow> pystr" where
  "char_str c = (case c of None \<Rightarrow> ascii ''None'' | Some d \<Rightarrow> [d])"

function string_loop :: "lexer \<Rightarrow> pystr \<Rightarrow> exn + pystr \<times> lexer" where
  "string_loop l result =
     (case current_char l of
        None \<Rightarrow> Inr (result, l)
      | Some c \<Rightarrow>
          if c = 34 then Inr (result, l)
          else if c = 92 then
            (case escape_char (current_char (advance l)) of
               None \<Rightarrow> Inl (lexer_error (advance l)
                          ([26410, 30693, 30340, 36716, 20041, 24207, 21015, 58, 32, 92]
                           @ char_str (current_char (advance l))))
             | Some d \<Rightarrow> string_loop (advance (advance l)) (result @ [d]))
          else string_loop (advance l) (result @ [c]))"
  by pat_completeness auto
termination
proof (relation "measure (\<lambda>(l, r). remaining l)", goal_cases)
  case 1
  show ?case by simp
next
  case (2 l result c d)
  then have "current_char (advance l) \<noteq> None"
    by (auto simp: escape_char_def split: if_splits)
  then have "remaining (advance (advance l)) < remaining (advance l)"
    by (rule remaining_advance)
  moreover have "remaining (advance l) < remaining l"
    using 2 by (intro remaining_advance) simp
  ultimately show ?case by simp
next
  case (3 l result c)
  then show ?case by (simp add: remaining_advance)
qed

declare string_loop.simps [simp del]

definition string :: "lexer \<Rightarrow> exn + pystr \<times> lexer" where
  "string l =
     (case string_loop (advance l) [] of
        Inl e \<Rightarrow> Inl e
      | Inr (result, l1) \<Rightarrow>
          if current_char l1 = Some 34 then Inr (result, advance l1)
          else Inl (lexer_error l1 [26410, 32467, 26463, 30340, 23383, 31526, 20018]))"

text \<open>The loop shared by \<open>number\<close> and \<open>identifier\<close>: append characters while \<open>P\<close> holds.\<close>

function take_while :: "(nat \<Rightarrow> bool) \<Rightarrow> lexer \<Rightarrow> pystr \<Rightarrow> pystr \<times> lexer" where
  "take_while P l result =
     (case current_char l of
        None \<Rightarrow> (result, l)
      | Some c \<Rightarrow> if P c then take_while P (advance l) (result @ [c]) else (result, l))"
  by pat_completeness auto
termination
  by (relation "measure (\<lambda>(P, l, r). remaining l)") (auto simp: remaining_advance)

declare take_while.simps [simp del]

definition number :: "lexer \<Rightarrow> exn + pyvalue \<times> lexer" where
  "number l =
     (let (r1, l1) = take_while isdigit l []
      in if current_char l1 = Some 46
         then (let (r2, l2) = take_while isdigit (advance l1) (r1 @ [46])
               in case py_float r2 of Inl e \<Rightarrow> Inl e | Inr x \<Rightarrow> Inr (VFloat x, l2))
         else (case py_int r1 of Inl e \<Rightarrow> Inl e | Inr i \<Rightarrow> Inr (VInt i, l1)))"

text \<open>\<open>keywords.get(result, TokenType.IDENTIFIER)\<close> on the dictionary of the seven keywords.\<close>

definition keywords_get :: "pystr \<Rightarrow> token_type" where
  "keywords_get s =
     (if s = [25171, 21360] then PRINT
      else if s = [22914, 26524] then IF
      else if s = [21542, 21017] then ELSE
      else if s = [24490, 29615] then WHILE
      else if s = [23548, 20837] then IMPORT
      else if s = [23581, 35797] then TRY
      else if s = [25429, 33719] then CATCH
      else IDENTIFIER)"

definition lex_identifier :: "lexer \<Rightarrow> (token_type \<times> pystr) \<times> lexer" where
  "lex_identifier l =
     (let (result, l1) = take_while (\<lambda>c. isalnum c \<or> c = 95) l []
      in ((keywords_get result, result), l1))"

text \<open>
  One pass of the loop of \<open>get_next_token\<close> at a current character \<open>c\<close> that is neither
  white space nor \<open>#\<close>. For a string, a number and an identifier the token is built
  after the lexeme has been read: \<open>self.line\<close> and \<open>self.column\<close> are evaluated after
  \<open>self.string()\<close>, \<open>self.number()\<close> and \<open>self.identifier()\<close>.
\<close>

definition single :: "token_type \<Rightarrow> nat \<Rightarrow> lexer \<Rightarrow> exn + token \<times> lexer" where
  "single t c l = Inr (Token t (VStr [c]) (line l) (column l), advance l)"

definition scan_token :: "nat \<Rightarrow> lexer \<Rightarrow> exn + token \<times> lexer" where
  "scan_token c l =
     (if c = 34 then
        (case string l of
           Inl e \<Rightarrow> Inl e
         | Inr (s, l1) \<Rightarrow> Inr (Token STRING (VStr s) (line l1) (column l1), l1))
      else if isdigit c then
        (case number l of
           Inl e \<Rightarrow> Inl e
         | Inr (v, l1) \<Rightarrow> Inr (Token NUMBER v (line l1) (column l1), l1))
      else if isalpha c \<or> c = 95 then
        (let ((token_type, v), l1) = lex_identifier l
         in Inr (Token token_type (VStr v) (line l1) (column l1), l1))
      else if c = 59 then single SEMICOLON c l
      else if c = 40 then single LPAREN c l
      else if c = 41 then single RPAREN c l
      else if c = 123 then single LBRACE c l
      else if c = 125 then single RBRACE c l
      else if c = 43 then single PLUS c l
      else if c = 45 then single MINUS c l
      else if c = 42 then single MULTIPLY c l
      else if c = 47 then single DIVIDE c l
      else if c = 61 then
        (let start_line = line l; start_column = column l; l1 = advance l
         in if current_char l1 = Some 61
            then Inr (Token COMPARISON (VStr [61, 61]) start_line start_column, advance l1)
            else Inr (Token ASSIGN (VStr [61]) start_line start_column, l1))
      else if c \<in> set [60, 62, 33] then
        (let start_line = line l; start_column = column l; l1 = advance l
         in if current_char l1 = Some 61
            then Inr (Token COMPARISON (VStr [c, 61]) start_line start_column, advance l1)
            else Inr (Token COMPARISON (VStr [c]) start_line start_column, l1))
      else Inl (lexer_error l ([26080, 27861, 35782, 21035, 30340, 23383, 31526, 58, 32, 39]
                               @ [c] @ [39])))"

lemma skip_whitespace_remaining: "remaining (skip_whitespace l) \<le> remaining l"
proof (induction l rule: skip_whitespace.induct)
  case (1 l)
  show ?case
  proof (cases "cur_is isspace l")
    case True
    with 1 cur_is_remaining [of isspace l] show ?thesis
      by (subst skip_whitespace.simps) simp
  next
    case False
    then show ?thesis by (subst skip_whitespace.simps) simp
  qed
qed

lemma skip_whitespace_less:
  "cur_is isspace l \<Longrightarrow> remaining (skip_whitespace l) < remaining l"
  using skip_whitespace_remaining [of "advance l"] cur_is_remaining [of isspace l]
  by (subst skip_whitespace.simps) simp

lemma skip_to_newline_remaining: "remaining (skip_to_newline l) \<le> remaining l"
proof (induction l rule: skip_to_newline.induct)
  case (1 l)
  show ?case
  proof (cases "cur_is (\<lambda>c. c \<noteq> 10) l")
    case True
    with 1 cur_is_remaining [of "\<lambda>c. c \<noteq> 10" l] show ?thesis
      by (subst skip_to_newline.simps) simp
  next
    case False
    then show ?thesis by (subst skip_to_newline.simps) simp
  qed
qed

lemma skip_comment_less:
  assumes "current_char l = Some 35"
  shows "remaining (skip_comment l) < remaining l"
proof -
  have c: "cur_is (\<lambda>c. c \<noteq> 10) l"
    using assms by (simp add: cur_is_def)
  have "remaining (skip_to_newline l) = remaining (skip_to_newline (advance l))"
    using c by (subst skip_to_newline.simps) simp
  also have "\<dots> \<le> remaining (advance l)"
    by (rule skip_to_newline_remaining)
  also have "\<dots> < remaining l"
    using c by (rule cur_is_remaining)
  finally have less: "remaining (skip_to_newline l) < remaining l" .
  show ?thesis
  proof (cases "current_char (skip_to_newline l) = Some 10")
    case True
    then have "remaining (advance (skip_to_newline l)) < remaining (skip_to_newline l)"
      by (intro remaining_advance) simp
    with less True show ?thesis by (simp add: skip_comment_def)
  next
    case False
    with less show ?thesis by (simp add: skip_comment_def)
  qed
qed

function get_next_token :: "lexer \<Rightarrow> exn + token \<times> lexer" where
  "get_next_token l =
     (case current_char l of
        None \<Rightarrow> Inr (Token EOF VNone (line l) (column l), l)
      | Some c \<Rightarrow>
          if isspace c then get_next_token (skip_whitespace l)
          else if c = 35 then get_next_token (skip_comment l)
          else scan_token c l)"
  by pat_completeness auto
termination
proof (relation "measure remaining", goal_cases)
  case 1
  show ?case by simp
next
  case (2 l c)
  then show ?case by (simp add: skip_whitespace_less cur_is_def)
next
  case (3 l c)
  then show ?case by (simp add: skip_comment_less)
qed

declare get_next_token.simps [simp del]

subsection \<open>Token positions\<close>

lemmas lexer_eval =
  get_next_token.simps scan_token_def Lexer_def advance_def Token_def lex_identifier_def
  take_while.simps isalpha_def isalnum_def isdigit_def isspace_def keywords_get_def ascii_def
  single_def skip_whitespace.simps skip_comment_def skip_to_newline.simps cur_is_def
  number_def py_int_def py_float_def digits_val_def string_def string_loop.simps
  escape_char_def

text \<open>The first token of a source text, without the lexer state that follows it.\<close>

definition first_token :: "pystr \<Rightarrow> exn + token" where
  "first_token src = map_sum id fst (get_next_token (Lexer src (ascii ''f.mylang'')))"

text \<open>
  Claim C3 says that the line and column of every token are the position of the first
  character of its lexeme, strings, numbers, identifiers and keywords included. For those
  four kinds the code reads \<open>self.line\<close> and \<open>self.column\<close> after the lexeme has been
  consumed, so the token carries the position just behind its last character: the
  identifier \<open>ab\<close>, the number \<open>12\<close>, the string \<open>"a"\<close> and the keyword for print, each
  alone at line 1, column 1, get the columns 3, 3, 4 and 3, and a string that spans a
  line break gets the line on which it ends. (The one- and two-character tokens record
  their first character, as the claim says.)
\<close>

theorem C3_position_behind_lexeme:
  "first_token (ascii ''ab'') = Inr (Token IDENTIFIER (VStr (ascii ''ab'')) 1 3)
 \<and> first_token (ascii ''12'') = Inr (Token NUMBER (VInt 12) 1 3)
 \<and> first_token [34, 97, 34] = Inr (Token STRING (VStr [97]) 1 4)
 \<and> first_token [25171, 21360] = Inr (Token PRINT (VStr [25171, 21360]) 1 3)
 \<and> first_token [34, 97, 10, 98, 34] = Inr (Token STRING (VStr [97, 10, 98]) 2 3)
 \<and> first_token (ascii ''<= 1'') = Inr (Token COMPARISON (VStr (ascii ''<='')) 1 1)"
  by (simp add: first_token_def lexer_eval)

section \<open>The syntax tree\<close>

text \<open>
  One constructor for each subclass of \<open>AST\<close>, with the fields of its constructor. Any
  node may stand where a node is expected, as in the source; which shapes occur is up to
  the parser. The else-block of \<open>If\<close> is \<open>None\<close> when there is no else.
\<close>

datatype ast =
  Print ast
| Assign pystr ast
| Variable pystr
| Number pyvalue
| String pystr
| If ast "ast list" "ast list option"
| While ast "ast list"
| Comparison ast pystr ast
| BinOp ast pystr ast
| Import pystr
| TryCatch "ast list" "ast list" pystr

section \<open>The parser\<close>

text \<open>
  The outcome of a computation that recurses: a result, an exception, or the end of the
  fuel. The methods of the parser call each other recursively over the token stream, and
  the evaluator parses and runs the body of each imported module, which may import in
  turn (a module that imports itself does so without end). The fuel bounds the depth of
  both; \<open>OutOfFuel\<close> says that the fuel given was too little. What Python does at its own
  recursion limit is not part of the model.
\<close>

datatype 'a result = Return 'a | Raise exn | OutOfFuel

fun bind :: "'a result \<Rightarrow> ('a \<Rightarrow> 'b result) \<Rightarrow> 'b result" where
  "bind (Return x) f = f x"
| "bind (Raise e) f = Raise e"
| "bind OutOfFuel f = OutOfFuel"

fun lift :: "exn + 'a \<Rightarrow> 'a result" where
  "lift (Inl e) = Raise e"
| "lift (Inr x) = Return x"

record parser =
  lexer :: lexer
  current_token :: token

definition Parser :: "lexer \<Rightarrow> exn + parser" where
  "Parser l =
     (case get_next_token l of
        Inl e \<Rightarrow> Inl e
      | Inr (t, l1) \<Rightarrow> Inr \<lparr>lexer = l1, current_token = t\<rparr>)"

text \<open>The text of a token whose value the lexer built as text (identifier, string, operator).\<close>

fun text_of :: "pyvalue \<Rightarrow> pystr" where
  "text_of (VStr s) = s"
| "text_of _ = []"

text \<open>The exception that \<open>Parser.error\<close> raises, at the current token.\<close>

definition parser_error :: "parser \<Rightarrow> pystr \<Rightarrow> exn" where
  "parser_error p msg =
     ParserError (filename (lexer p) @ [58] @ str_nat (tok_line (current_token p)) @ [58]
                  @ str_nat (tok_column (current_token p)) @ [58, 32] @ msg)"

definition eat :: "parser \<Rightarrow> token_type \<Rightarrow> parser result" where
  "eat p token_type =
     (if tok_type (current_token p) = token_type then
        (case get_next_token (lexer p) of
           Inl e \<Rightarrow> Raise e
         | Inr (t, l1) \<Rightarrow> Return (p\<lparr>lexer := l1, current_token := t\<rparr>))
      else Raise (parser_error p ([26399, 26395, 32] @ type_name token_type
                    @ [44, 32, 24471, 21040, 32] @ type_name (tok_type (current_token p)))))"

text \<open>
  \<open>factor\<close>, \<open>term\<close>, \<open>expr\<close>, \<open>comparison\<close>, \<open>statement\<close> and \<open>block\<close>, each returning its
  node and the parser after it. The loops of \<open>term\<close>, \<open>expr\<close> and \<open>block\<close> are
  \<open>term_loop\<close>, \<open>expr_loop\<close> and \<open>block_loop\<close>, with the node or the statements so far.
\<close>

fun factor :: "nat \<Rightarrow> parser \<Rightarrow> (ast \<times> parser) result"
  and term_loop :: "nat \<Rightarrow> ast \<Rightarrow> parser \<Rightarrow> (ast \<times> parser) result"
  and term' :: "nat \<Rightarrow> parser \<Rightarrow> (ast \<times> parser) result"
  and expr_loop :: "nat \<Rightarrow> ast \<Rightarrow> parser \<Rightarrow> (ast \<times> parser) result"
  and expr :: "nat \<Rightarrow> parser \<Rightarrow> (ast \<times> parser) result"
where
  "factor 0 p = OutOfFuel"
| "factor (Suc n) p =
     (let token = current_token p
      in if tok_type token = NUMBER then
           bind (eat p NUMBER) (\<lambda>p1. Return (Number (tok_value token), p1))
         else if tok_type token = STRING then
           bind (eat p STRING) (\<lambda>p1. Return (String (text_of (tok_value token)), p1))
         else if tok_type token = IDENTIFIER then
           bind (eat p IDENTIFIER) (\<lambda>p1. Return (Variable (text_of (tok_value token)), p1))
         else if tok_type token = LPAREN then
           bind (eat p LPAREN) (\<lambda>p1.
           bind (expr n p1) (\<lambda>(node, p2).
           bind (eat p2 RPAREN) (\<lambda>p3. Return (node, p3))))
         else Raise (parser_error p ([24847, 22806, 30340, 26631, 35760, 58, 32]
                       @ type_name (tok_type token))))"
| "term_loop 0 node p = OutOfFuel"
| "term_loop (Suc n) node p =
     (let token = current_token p
      in if tok_type token = MULTIPLY \<or> tok_type token = DIVIDE then
           bind (if tok_type token = MULTIPLY then eat p MULTIPLY else eat p DIVIDE) (\<lambda>p1.
           bind (factor n p1) (\<lambda>(right, p2).
           term_loop n (BinOp node (text_of (tok_value token)) right) p2))
         else Return (node, p))"
| "term' 0 p = OutOfFuel"
| "term' (Suc n) p = bind (factor n p) (\<lambda>(node, p1). term_loop n node p1)"
| "expr_loop 0 node p = OutOfFuel"
| "expr_loop (Suc n) node p =
     (let token = current_token p
      in if tok_type token = PLUS \<or> tok_type token = MINUS then
           bind (if tok_type token = PLUS then eat p PLUS else eat p MINUS) (\<lambda>p1.
           bind (term' n p1) (\<lambda>(right, p2).
           expr_loop n (BinOp node (text_of (tok_value token)) right) p2))
         else Return (node, p))"
| "expr 0 p = OutOfFuel"
| "expr (Suc n) p = bind (term' n p) (\<lambda>(node, p1). expr_loop n node p1)"

definition comparison :: "nat \<Rightarrow> parser \<Rightarrow> (ast \<times> parser) result" where
  "comparison n p =
     bind (expr n p) (\<lambda>(node, p1).
       if tok_type (current_token p1) = COMPARISON then
         (let token = current_token p1
          in bind (eat p1 COMPARISON) (\<lambda>p2.
             bind (expr n p2) (\<lambda>(right, p3).
             Return (Comparison node (text_of (tok_value token)) right, p3))))
       else Return (node, p1))"

fun statement :: "nat \<Rightarrow> parser \<Rightarrow> (ast \<times> parser) result"
  and block_loop :: "nat \<Rightarrow> ast list \<Rightarrow> parser \<Rightarrow> (ast list \<times> parser) result"
where
  "statement 0 p = OutOfFuel"
| "statement (Suc n) p =
     (let token = current_token p
      in if tok_type token = PRINT then
           bind (eat p PRINT) (\<lambda>p1.
           bind (eat p1 LPAREN) (\<lambda>p2.
           bind (expr n p2) (\<lambda>(e, p3).
           bind (eat p3 RPAREN) (\<lambda>p4.
           bind (eat p4 SEMICOLON) (\<lambda>p5. Return (Print e, p5))))))
         else if tok_type token = IDENTIFIER then
           (let var_name = text_of (tok_value token)
            in bind (eat p IDENTIFIER) (\<lambda>p1.
               bind (eat p1 ASSIGN) (\<lambda>p2.
               bind (expr n p2) (\<lambda>(e, p3).
               bind (eat p3 SEMICOLON) (\<lambda>p4. Return (Assign var_name e, p4))))))
         else if tok_type token = IF then
           bind (eat p IF) (\<lambda>p1.
           bind (eat p1 LPAREN) (\<lambda>p2.
           bind (comparison n p2) (\<lambda>(condition, p3).
           bind (eat p3 RPAREN) (\<lambda>p4.
           bind (eat p4 LBRACE) (\<lambda>p5.
           bind (block_loop n [] p5) (\<lambda>(true_block, p6).
           bind (eat p6 RBRACE) (\<lambda>p7.
             if tok_type (current_token p7) = ELSE then
               bind (eat p7 ELSE) (\<lambda>p8.
               bind (eat p8 LBRACE) (\<lambda>p9.
               bind (block_loop n [] p9) (\<lambda>(false_block, p10).
               bind (eat p10 RBRACE) (\<lambda>p11.
               Return (If condition true_block (Some false_block), p11)))))
             else Return (If condition true_block None, p7))))))))
         else if tok_type token = WHILE then
           bind (eat p WHILE) (\<lambda>p1.
           bind (eat p1 LPAREN) (\<lambda>p2.
           bind (comparison n p2) (\<lambda>(condition, p3).
           bind (eat p3 RPAREN) (\<lambda>p4.
           bind (eat p4 LBRACE) (\<lambda>p5.
           bind (block_loop n [] p5) (\<lambda>(body, p6).
           bind (eat p6 RBRACE) (\<lambda>p7. Return (While condition body, p7))))))))
         else if tok_type token = IMPORT then
           bind (eat p IMPORT) (\<lambda>p1.
             if tok_type (current_token p1) \<noteq> STRING then
               Raise (parser_error p1
                 [26399, 26395, 23383, 31526, 20018, 20316, 20026, 27169, 22359, 21517])
             else
               (let module_name = text_of (tok_value (current_token p1))
                in bind (eat p1 STRING) (\<lambda>p2.
                   bind (eat p2 SEMICOLON) (\<lambda>p3. Return (Import module_name, p3)))))
         else if tok_type token = TRY then
           bind (eat p TRY) (\<lambda>p1.
           bind (eat p1 LBRACE) (\<lambda>p2.
           bind (block_loop n [] p2) (\<lambda>(try_block, p3).
           bind (eat p3 RBRACE) (\<lambda>p4.
           bind (eat p4 CATCH) (\<lambda>p5.
           bind (if tok_type (current_token p5) = LPAREN then
                   bind (eat p5 LPAREN) (\<lambda>p6.
                   bind (if tok_type (current_token p6) = IDENTIFIER then
                           bind (eat p6 IDENTIFIER) (\<lambda>p7.
                             Return (text_of (tok_value (current_token p6)), p7))
                         else Return (ascii ''_error'', p6)) (\<lambda>(error_var, p7).
                   bind (eat p7 RPAREN) (\<lambda>p8. Return (error_var, p8))))
                 else Return (ascii ''_error'', p5)) (\<lambda>(error_var, p8).
           bind (eat p8 LBRACE) (\<lambda>p9.
           bind (block_loop n [] p9) (\<lambda>(catch_block, p10).
           bind (eat p10 RBRACE) (\<lambda>p11.
           Return (TryCatch try_block catch_block error_var, p11))))))))))
         else Raise (parser_error p ([24847, 22806, 30340, 35821, 21477, 58, 32]
                       @ type_name (tok_type token))))"
| "block_loop 0 statements p = OutOfFuel"
| "block_loop (Suc n) statements p =
     (if tok_type (current_token p) \<noteq> RBRACE \<and> tok_type (current_token p) \<noteq> EOF then
        bind (statement n p) (\<lambda>(s, p1). block_loop n (statements @ [s]) p1)
      else Return (statements, p))"

definition block :: "nat \<Rightarrow> parser \<Rightarrow> (ast list \<times> parser) result" where
  "block n p = block_loop n [] p"

text \<open>The loop of \<open>parse\<close>: statements up to the end of the input.\<close>

fun parse_loop :: "nat \<Rightarrow> ast list \<Rightarrow> parser \<Rightarrow> ast list result" where
  "parse_loop 0 statements p = OutOfFuel"
| "parse_loop (Suc n) statements p =
     (if tok_type (current_token p) \<noteq> EOF then
        bind (statement n p) (\<lambda>(s, p1). parse_loop n (statements @ [s]) p1)
      else Return statements)"

definition parse :: "nat \<Rightarrow> parser \<Rightarrow> ast list result" where
  "parse n p = parse_loop n [] p"

text \<open>\<open>Parser(Lexer(text, filename)).parse()\<close>, as \<open>main\<close> and \<open>visit_Import\<close> run it.\<close>

definition parse_text :: "nat \<Rightarrow> pystr \<Rightarrow> pystr \<Rightarrow> ast list result" where
  "parse_text n src fname = bind (lift (Parser (Lexer src fname))) (parse n)"

section \<open>The evaluator: operations on values\<close>

text \<open>\<open>str(v)\<close> and \<open>type(v).__name__\<close>.\<close>

fun py_str :: "pyvalue \<Rightarrow> pystr" where
  "py_str VNone = ascii ''None''"
| "py_str (VBool b) = (if b then ascii ''True'' else ascii ''False'')"
| "py_str (VInt i) = str_int i"
| "py_str (VFloat x) = fl_repr x"
| "py_str (VStr s) = s"

fun py_type :: "pyvalue \<Rightarrow> pystr" where
  "py_type VNone = ascii ''NoneType''"
| "py_type (VBool b) = ascii ''bool''"
| "py_type (VInt i) = ascii ''int''"
| "py_type (VFloat x) = ascii ''float''"
| "py_type (VStr s) = ascii ''str''"

text \<open>
  \<open>isinstance(v, int)\<close>, \<open>isinstance(v, (int, float))\<close> and \<open>isinstance(v, str)\<close>. In
  Python \<open>bool\<close> is a subclass of \<open>int\<close>, so both hold of a boolean, which then counts
  as 0 or 1.
\<close>

fun is_int :: "pyvalue \<Rightarrow> bool" where
  "is_int (VInt i) = True"
| "is_int (VBool b) = True"
| "is_int _ = False"

fun is_num :: "pyvalue \<Rightarrow> bool" where
  "is_num (VInt i) = True"
| "is_num (VBool b) = True"
| "is_num (VFloat x) = True"
| "is_num _ = False"

fun is_str :: "pyvalue \<Rightarrow> bool" where
  "is_str (VStr s) = True"
| "is_str _ = False"

fun int_of :: "pyvalue \<Rightarrow> int" where
  "int_of (VInt i) = i"
| "int_of (VBool b) = (if b then 1 else 0)"
| "int_of _ = 0"

text \<open>The conversion of an integer to a float, which overflows beyond the largest float.\<close>

definition fl_of_int :: "int \<Rightarrow> exn + pyfloat" where
  "fl_of_int i =
     (case fl_round (of_int i) of
        Infinity s \<Rightarrow> Inl (OtherException (ascii ''int too large to convert to float''))
      | x \<Rightarrow> Inr x)"

fun to_float :: "pyvalue \<Rightarrow> exn + pyfloat" where
  "to_float (VFloat x) = Inr x"
| "to_float v = fl_of_int (int_of v)"

text \<open>
  \<open>l + r\<close>, \<open>l - r\<close>, \<open>l * r\<close> on two numbers: exact on two integers, otherwise on floats
  after converting the integer operand.
\<close>

definition num_op ::
  "(int \<Rightarrow> int \<Rightarrow> int) \<Rightarrow> (pyfloat \<Rightarrow> pyfloat \<Rightarrow> pyfloat) \<Rightarrow> pyvalue \<Rightarrow> pyvalue \<Rightarrow> exn + pyvalue" where
  "num_op fi ff l r =
     (if is_int l \<and> is_int r then Inr (VInt (fi (int_of l) (int_of r)))
      else case to_float l of
             Inl e \<Rightarrow> Inl e
           | Inr x \<Rightarrow> (case to_float r of
                         Inl e \<Rightarrow> Inl e
                       | Inr y \<Rightarrow> Inr (VFloat (ff x y))))"

text \<open>\<open>r == 0\<close> for a number \<open>r\<close>.\<close>

fun is_zero :: "pyvalue \<Rightarrow> bool" where
  "is_zero (VFloat x) = fl_is_zero x"
| "is_zero v = (int_of v = 0)"

text \<open>
  \<open>l / r\<close> on two numbers, the true division of Python 3: the result is a float. Of two
  integers it is the exact quotient rounded once, \<open>OverflowError\<close> when that is beyond
  the largest float; otherwise the integer operand is converted and the floats divided.
  Division by zero raises \<open>ZeroDivisionError\<close>.
\<close>

definition py_truediv :: "pyvalue \<Rightarrow> pyvalue \<Rightarrow> exn + pyvalue" where
  "py_truediv l r =
     (if is_zero r then Inl (OtherException (ascii ''division by zero''))
      else if is_int l \<and> is_int r then
        (if int_of l = 0 then Inr (VFloat (Finite (int_of r < 0) 0))
         else case fl_round (of_int (int_of l) / of_int (int_of r)) of
                Infinity s \<Rightarrow>
                  Inl (OtherException (ascii ''integer division result too large for a float''))
              | x \<Rightarrow> Inr (VFloat x))
      else case to_float l of
             Inl e \<Rightarrow> Inl e
           | Inr x \<Rightarrow> (case to_float r of
                         Inl e \<Rightarrow> Inl e
                       | Inr y \<Rightarrow> Inr (VFloat (fl_div x y))))"

text \<open>The message of a type error of \<open>visit_BinOp\<close> and \<open>visit_Comparison\<close>.\<close>

definition type_error :: "pystr \<Rightarrow> pyvalue \<Rightarrow> pystr \<Rightarrow> pyvalue \<Rightarrow> exn" where
  "type_error msg l op r = RuntimeError (msg @ py_type l @ [32] @ op @ [32] @ py_type r)"

text \<open>\<open>visit_BinOp\<close>, once both operands have been evaluated.\<close>

definition binop :: "pystr \<Rightarrow> pyvalue \<Rightarrow> pyvalue \<Rightarrow> exn + pyvalue" where
  "binop op l r =
     (if op = [43] then
        (if is_str l \<or> is_str r then Inr (VStr (py_str l @ py_str r))
         else if is_num l \<and> is_num r then num_op (+) fl_add l r
         else Inl (type_error [19981, 25903, 25345, 30340, 31867, 22411, 30456, 21152, 58, 32]
                     l [43] r))
      else if op = [45] then
        (if is_num l \<and> is_num r then num_op (-) fl_sub l r
         else Inl (type_error [19981, 25903, 25345, 30340, 31867, 22411, 30456, 20943, 58, 32]
                     l [45] r))
      else if op = [42] then
        (if is_str l \<and> is_int r then Inr (VStr (str_repeat (py_str l) (int_of r)))
         else if is_int l \<and> is_str r then Inr (VStr (str_repeat (py_str r) (int_of l)))
         else if is_num l \<and> is_num r then num_op (*) fl_mul l r
         else Inl (type_error [19981, 25903, 25345, 30340, 31867, 22411, 30456, 20056, 58, 32]
                     l [42] r))
      else if op = [47] then
        (if is_num l \<and> is_num r then
           (if is_zero r then Inl (RuntimeError [38500, 20197, 38646, 38169, 35823])
            else py_truediv l r)
         else Inl (type_error [19981, 25903, 25345, 30340, 31867, 22411, 30456, 38500, 58, 32]
                     l [47] r))
      else Inl (RuntimeError ([26410, 30693, 30340, 36816, 31639, 31526, 58, 32] @ op)))"

text \<open>\<open>l == r\<close> and \<open>l < r\<close> on two values of the same type.\<close>

fun py_eq :: "pyvalue \<Rightarrow> pyvalue \<Rightarrow> bool" where
  "py_eq (VFloat x) (VFloat y) = fl_eq x y"
| "py_eq l r = (l = r)"

fun py_lt :: "pyvalue \<Rightarrow> pyvalue \<Rightarrow> bool" where
  "py_lt (VFloat x) (VFloat y) = fl_lt x y"
| "py_lt l r = (int_of l < int_of r)"

fun py_le :: "pyvalue \<Rightarrow> pyvalue \<Rightarrow> bool" where
  "py_le (VFloat x) (VFloat y) = fl_le x y"
| "py_le l r = (int_of l \<le> int_of r)"

text \<open>
  \<open>visit_Comparison\<close>, once both operands have been evaluated. The test of the two types
  comes first, for every operator.
\<close>

definition compare :: "pystr \<Rightarrow> pyvalue \<Rightarrow> pyvalue \<Rightarrow> exn + pyvalue" where
  "compare op l r =
     (let unsupported = type_error [19981, 25903, 25345, 30340, 31867, 22411, 27604, 36739, 58, 32]
                          l op r
      in if py_type l \<noteq> py_type r then
           Inl (RuntimeError ([27604, 36739, 36816, 31639, 31867, 22411, 19981, 21305, 37197, 58, 32]
                  @ py_type l @ [32, 21644, 32] @ py_type r))
         else if op = [61, 61] then Inr (VBool (py_eq l r))
         else if op = [33, 61] then Inr (VBool (\<not> py_eq l r))
         else if op = [60] then
           (if is_num l \<and> is_num r then Inr (VBool (py_lt l r)) else Inl unsupported)
         else if op = [60, 61] then
           (if is_num l \<and> is_num r then Inr (VBool (py_le l r)) else Inl unsupported)
         else if op = [62] then
           (if is_num l \<and> is_num r then Inr (VBool (py_lt r l)) else Inl unsupported)
         else if op = [62, 61] then
           (if is_num l \<and> is_num r then Inr (VBool (py_le r l)) else Inl unsupported)
         else Inl (RuntimeError ([26410, 30693, 30340, 27604, 36739, 36816, 31639, 31526, 58, 32]
                     @ op)))"

text \<open>The truth value of \<open>v\<close> in the condition of a \<open>while\<close>.\<close>

fun truthy :: "pyvalue \<Rightarrow> bool" where
  "truthy VNone = False"
| "truthy (VBool b) = b"
| "truthy (VInt i) = (i \<noteq> 0)"
| "truthy (VFloat x) = (\<not> fl_is_zero x)"
| "truthy (VStr s) = (s \<noteq> [])"

section \<open>The evaluator: state and files\<close>

text \<open>
  \<open>variables\<close> is the dictionary of the interpreter, in insertion order (the order of
  \<open>keys()\<close>); \<open>imported_modules\<close> is the set of this interpreter instance. \<open>stdout\<close> holds
  the lines printed and \<open>opened\<close> the paths of the files opened for reading, both in
  order: they record the effects of \<open>print\<close> and \<open>open\<close>.
\<close>

record state =
  variables :: "(pystr \<times> pyvalue) list"
  imported_modules :: "pystr set"
  stdout :: "pystr list"
  opened :: "pystr list"

text \<open>\<open>Interpreter()\<close> in a world where nothing has been printed or opened.\<close>

definition Interpreter :: state where
  "Interpreter = \<lparr>variables = [], imported_modules = {}, stdout = [], opened = []\<rparr>"

text \<open>\<open>d[k] = v\<close>: a key that is present keeps its place.\<close>

fun setitem :: "pystr \<Rightarrow> pyvalue \<Rightarrow> (pystr \<times> pyvalue) list \<Rightarrow> (pystr \<times> pyvalue) list" where
  "setitem k v [] = [(k, v)]"
| "setitem k v ((k', v') # d) = (if k' = k then (k, v) # d else (k', v') # setitem k v d)"

definition assign :: "pystr \<Rightarrow> pyvalue \<Rightarrow> state \<Rightarrow> state" where
  "assign k v s = s\<lparr>variables := setitem k v (variables s)\<rparr>"

text \<open>
  The files the interpreter can see: which paths exist, the entries of a directory (or
  the message of the exception of \<open>os.listdir\<close>), the text of a file (or the message of
  the exception of \<open>open\<close> and \<open>read\<close>), and the home directory of the user.
\<close>

record filesystem =
  fs_exists :: "pystr \<Rightarrow> bool"
  fs_listdir :: "pystr \<Rightarrow> pystr + pystr list"
  fs_read :: "pystr \<Rightarrow> pystr + pystr"
  fs_home :: pystr

text \<open>\<open>os.path.join(a, b)\<close> on POSIX paths.\<close>

definition path_join :: "pystr \<Rightarrow> pystr \<Rightarrow> pystr" where
  "path_join a b =
     (if b \<noteq> [] \<and> hd b = 47 then b
      else if a = [] \<or> last a = 47 then a @ b
      else a @ [47] @ b)"

definition startswith :: "pystr \<Rightarrow> pystr \<Rightarrow> bool" where
  "startswith s pre = (take (length pre) s = pre)"

definition endswith :: "pystr \<Rightarrow> pystr \<Rightarrow> bool" where
  "endswith s suf = (length suf \<le> length s \<and> drop (length s - length suf) s = suf)"

definition find_module :: "filesystem \<Rightarrow> pystr \<Rightarrow> exn + pystr option" where
  "find_module fs module_name =
     (let package_dir = path_join (path_join (fs_home fs) (ascii ''.mylang'')) (ascii ''packages'')
      in if fs_exists fs (module_name @ ascii ''.mylang'')
         then Inr (Some (module_name @ ascii ''.mylang''))
         else if fs_exists fs (path_join package_dir (module_name @ ascii ''.mylang''))
         then Inr (Some (path_join package_dir (module_name @ ascii ''.mylang'')))
         else if fs_exists fs package_dir then
           (case fs_listdir fs package_dir of
              Inl msg \<Rightarrow> Inl (OtherException msg)
            | Inr names \<Rightarrow>
                (case filter (\<lambda>f. startswith f (module_name @ [45]) \<and> endswith f (ascii ''.mylang''))
                        names of
                   [] \<Rightarrow> Inr None
                 | f # _ \<Rightarrow> Inr (Some (path_join package_dir f))))
         else Inr None)"

section \<open>The evaluator\<close>

text \<open>
  A visit returns its outcome together with the state it leaves behind: the dictionary of
  variables is mutated in place, so what was assigned before an exception stays assigned.
\<close>

type_synonym outcome = "pyvalue result \<times> state"

text \<open>
  The exception handlers of \<open>visit\<close>: a \<open>RuntimeError\<close> is raised again as it is, every
  other exception becomes a \<open>RuntimeError\<close> that quotes it.
\<close>

fun handle :: "outcome \<Rightarrow> outcome" where
  "handle (Raise (RuntimeError m), s) = (Raise (RuntimeError m), s)"
| "handle (Raise e, s) =
     (Raise (RuntimeError ([36816, 34892, 26102, 38169, 35823, 58, 32] @ exn_str e)), s)"
| "handle r = r"

fun raise_or_return :: "exn + pyvalue \<Rightarrow> state \<Rightarrow> outcome" where
  "raise_or_return (Inl e) s = (Raise e, s)"
| "raise_or_return (Inr v) s = (Return v, s)"

definition visit_Variable :: "pystr \<Rightarrow> state \<Rightarrow> outcome" where
  "visit_Variable name s =
     (case map_of (variables s) name of
        Some v \<Rightarrow> (Return v, s)
      | None \<Rightarrow>
          (let available_vars = join (ascii '', '') (map fst (variables s))
           in (Raise (RuntimeError ([26410, 23450, 20041, 30340, 21464, 37327, 58, 32, 39] @ name
                        @ [39, 12290, 21487, 29992, 30340, 21464, 37327, 58, 32, 91]
                        @ available_vars @ [93])), s)))"

text \<open>The message of \<open>visit_Import\<close> around an exception of the module.\<close>

definition import_error :: "pystr \<Rightarrow> exn \<Rightarrow> exn" where
  "import_error module_name e =
     RuntimeError ([23548, 20837, 27169, 22359, 32, 39] @ module_name
                   @ [39, 32, 26102, 20986, 38169, 58, 32] @ exn_str e)"

text \<open>Whether an exception is a \<open>MyLangError\<close>.\<close>

fun is_MyLangError :: "exn \<Rightarrow> bool" where
  "is_MyLangError (OtherException m) = False"
| "is_MyLangError e = True"

text \<open>
  \<open>visit\<close> with the \<open>visit_\<close> method of each node class, \<open>visit_block\<close> for the loops
  \<open>for stmt in block: self.visit(stmt)\<close> (and for the one of \<open>Interpreter.interpret\<close>), and \<open>while_loop\<close> for the
  loop of \<open>visit_While\<close> with its counter \<open>iterations\<close>. The fuel \<open>n\<close> falls by one where
  \<open>visit_Import\<close> parses and runs a module in a new interpreter, which shares the
  dictionary of variables and starts with an empty set of imported modules.
\<close>

function visit :: "filesystem \<Rightarrow> nat \<Rightarrow> ast \<Rightarrow> state \<Rightarrow> outcome"
  and visit_block :: "filesystem \<Rightarrow> nat \<Rightarrow> ast list \<Rightarrow> state \<Rightarrow> outcome"
  and while_loop :: "filesystem \<Rightarrow> nat \<Rightarrow> ast \<Rightarrow> ast list \<Rightarrow> nat \<Rightarrow> state \<Rightarrow> outcome"
where
  "visit fs n (Number v) s = handle (Return v, s)"
| "visit fs n (String v) s = handle (Return (VStr v), s)"
| "visit fs n (Variable name) s = handle (visit_Variable name s)"
| "visit fs n (Assign var e) s =
     handle (case visit fs n e s of
               (Return v, s1) \<Rightarrow> (Return v, assign var v s1)
             | r \<Rightarrow> r)"
| "visit fs n (Print e) s =
     handle (case visit fs n e s of
               (Return v, s1) \<Rightarrow> (Return v, s1\<lparr>stdout := stdout s1 @ [py_str v]\<rparr>)
             | r \<Rightarrow> r)"
| "visit fs n (Comparison left op right) s =
     handle (case visit fs n left s of
               (Return l, s1) \<Rightarrow>
                 (case visit fs n right s1 of
                    (Return r, s2) \<Rightarrow> raise_or_return (compare op l r) s2
                  | r \<Rightarrow> r)
             | r \<Rightarrow> r)"
| "visit fs n (BinOp left op right) s =
     handle (case visit fs n left s of
               (Return l, s1) \<Rightarrow>
                 (case visit fs n right s1 of
                    (Return r, s2) \<Rightarrow> raise_or_return (binop op l r) s2
                  | r \<Rightarrow> r)
             | r \<Rightarrow> r)"
| "visit fs n (If condition true_block false_block) s =
     handle (case visit fs n condition s of
               (Return c, s1) \<Rightarrow>
                 (case c of
                    VBool b \<Rightarrow>
                      if b then visit_block fs n true_block s1
                      else (case false_block of
                              None \<Rightarrow> (Return VNone, s1)
                            | Some stmts \<Rightarrow>
                                if stmts \<noteq> [] then visit_block fs n stmts s1
                                else (Return VNone, s1))
                  | _ \<Rightarrow>
                      (Raise (RuntimeError
                         ([26465, 20214, 34920, 36798, 24335, 24517, 39035, 20026, 24067, 23572,
                           20540, 65292, 24471, 21040, 58, 32] @ py_type c)), s1))
             | r \<Rightarrow> r)"
| "visit fs n (While condition body) s = handle (while_loop fs n condition body 0 s)"
| "visit fs n (Import module_name) s =
     handle
       (if module_name \<in> imported_modules s then (Return VNone, s)
        else
          (let s1 = s\<lparr>imported_modules := insert module_name (imported_modules s)\<rparr>
           in case find_module fs module_name of
                Inl e \<Rightarrow> (Raise e, s1)
              | Inr None \<Rightarrow>
                  (Raise (RuntimeError ([25214, 19981, 21040, 27169, 22359, 58, 32] @ module_name)), s1)
              | Inr (Some module_path) \<Rightarrow>
                  (let s2 = s1\<lparr>opened := opened s1 @ [module_path]\<rparr>
                   in case fs_read fs module_path of
                        Inl msg \<Rightarrow>
                          (Raise (RuntimeError
                             ([26080, 27861, 35835, 21462, 27169, 22359, 25991, 20214, 32, 39]
                              @ module_path @ [39, 58, 32] @ msg)), s2)
                      | Inr module_code \<Rightarrow>
                          (case n of
                             0 \<Rightarrow> (OutOfFuel, s2)
                           | Suc m \<Rightarrow>
                               (case parse_text m module_code module_path of
                                  OutOfFuel \<Rightarrow> (OutOfFuel, s2)
                                | Raise e \<Rightarrow>
                                    (Raise (if is_MyLangError e then import_error module_name e
                                            else e), s2)
                                | Return tree \<Rightarrow>
                                    (case visit_block fs m tree (s2\<lparr>imported_modules := {}\<rparr>) of
                                       (Raise e, s3) \<Rightarrow>
                                         (Raise (if is_MyLangError e then import_error module_name e
                                                 else e),
                                          s3\<lparr>imported_modules := imported_modules s2\<rparr>)
                                     | (r, s3) \<Rightarrow>
                                         (r, s3\<lparr>imported_modules := imported_modules s2\<rparr>)))))))"
| "visit fs n (TryCatch try_block catch_block error_var) s =
     handle (case visit_block fs n try_block s of
               (Raise e, s1) \<Rightarrow> visit_block fs n catch_block (assign error_var (VStr (exn_str e)) s1)
             | r \<Rightarrow> r)"
| "visit_block fs n [] s = (Return VNone, s)"
| "visit_block fs n (stmt # stmts) s =
     (case visit fs n stmt s of
        (Return v, s1) \<Rightarrow> visit_block fs n stmts s1
      | r \<Rightarrow> r)"
| "while_loop fs n condition body iterations s =
     (case visit fs n condition s of
        (Return c, s1) \<Rightarrow>
          if truthy c then
            (case visit_block fs n body s1 of
               (Return v, s2) \<Rightarrow>
                 if 10000 < iterations + 1
                 then (Raise (RuntimeError
                         [24490, 29615, 27425, 25968, 36807, 22810, 65292, 21487, 33021, 38519,
                          20837, 26080, 38480, 24490, 29615]), s2)
                 else while_loop fs n condition body (iterations + 1) s2
             | r \<Rightarrow> r)
          else (Return VNone, s1)
      | r \<Rightarrow> r)"
  by pat_completeness auto
termination
  by (relation "inv_image (less_than <*lex*> less_than <*lex*> less_than)
        (\<lambda>x. case x of
           Inl (fs, n, node, s) \<Rightarrow> (n, 2 * size node, 0)
         | Inr (Inl (fs, n, stmts, s)) \<Rightarrow> (n, 2 * size_list size stmts, 0)
         | Inr (Inr (fs, n, c, b, i, s)) \<Rightarrow>
             (n, 2 * (size c + size_list size b) + 1, 10001 - i))") auto

declare while_loop.simps [simp del]

text \<open>\<open>Interpreter.interpret\<close>.\<close>

definition Interpreter_interpret :: "filesystem \<Rightarrow> nat \<Rightarrow> ast list \<Rightarrow> state \<Rightarrow> outcome" where
  "Interpreter_interpret fs n tree s = visit_block fs n tree s"

text \<open>A machine without any file, for the examples that import nothing.\<close>

definition no_files :: filesystem where
  "no_files = \<lparr>fs_exists = (\<lambda>p. False), fs_listdir = (\<lambda>p. Inr []),
                fs_read = (\<lambda>p. Inl []), fs_home = ascii ''/home/user''\<rparr>"

section \<open>Evaluating concrete programs\<close>

text \<open>
  The equations that compute the parser on a numeral of fuel, and a congruence rule that
  makes the simplifier run the first part of a \<open>bind\<close> before it looks at the second.
\<close>

lemmas fuel_numeral =
  factor.simps(2) [of "pred_numeral k", folded numeral_eq_Suc]
  term_loop.simps(2) [of "pred_numeral k", folded numeral_eq_Suc]
  term'.simps(2) [of "pred_numeral k", folded numeral_eq_Suc]
  expr_loop.simps(2) [of "pred_numeral k", folded numeral_eq_Suc]
  expr.simps(2) [of "pred_numeral k", folded numeral_eq_Suc]
  statement.simps(2) [of "pred_numeral k", folded numeral_eq_Suc]
  block_loop.simps(2) [of "pred_numeral k", folded numeral_eq_Suc]
  parse_loop.simps(2) [of "pred_numeral k", folded numeral_eq_Suc]
  for k

lemma bind_weak_cong: "m = m' \<Longrightarrow> bind m f = bind m' f"
  by simp

lemmas parser_eval =
  parse_text_def Parser_def parse_def eat_def comparison_def block_def fuel_numeral Let_def

lemmas visit_eval =
  while_loop.simps visit_Variable_def binop_def compare_def num_op_def assign_def
  Interpreter_def ascii_def

lemma handle_Return [simp]: "handle (Return v, s) = (Return v, s)"
  by simp

lemma handle_OutOfFuel [simp]: "handle (OutOfFuel, s) = (OutOfFuel, s)"
  by simp

section \<open>Unbound variables\<close>

lemma sublist_mid: "sublist xs (ps @ xs @ ss)"
  by (auto simp: sublist_def)

text \<open>
  Claim C7: for every name that is not bound in the environment, evaluating
  \<open>Variable(name)\<close> fails with a \<open>RuntimeError\<close> whose message contains the name and the
  comma-separated list of all names that are bound. The state is left as it was.
\<close>

theorem C7_unbound_variable:
  assumes "name \<notin> set (map fst (variables s))"
  shows "\<exists>msg. visit fs n (Variable name) s = (Raise (RuntimeError msg), s)
           \<and> msg = [26410, 23450, 20041, 30340, 21464, 37327, 58, 32, 39] @ name
                   @ [39, 12290, 21487, 29992, 30340, 21464, 37327, 58, 32, 91]
                   @ join (ascii '', '') (map fst (variables s)) @ [93]
           \<and> sublist name msg
           \<and> sublist (join (ascii '', '') (map fst (variables s))) msg"
proof -
  from assms have none: "map_of (variables s) name = None"
    by (simp add: map_of_eq_None_iff)
  let ?keys = "join (ascii '', '') (map fst (variables s))"
  let ?msg = "[26410, 23450, 20041, 30340, 21464, 37327, 58, 32, 39] @ name
                   @ [39, 12290, 21487, 29992, 30340, 21464, 37327, 58, 32, 91]
                   @ ?keys @ [93]"
  have "visit fs n (Variable name) s = (Raise (RuntimeError ?msg), s)"
    using none by (simp add: visit_Variable_def)
  moreover have "sublist name ?msg"
    by (rule sublist_mid)
  moreover have "sublist ?keys ?msg"
    using sublist_mid [of ?keys "[26410, 23450, 20041, 30340, 21464, 37327, 58, 32, 39] @ name
                   @ [39, 12290, 21487, 29992, 30340, 21464, 37327, 58, 32, 91]" "[93]"]
    by simp
  ultimately show ?thesis by blast
qed

theorem C7_unbound_variable_witness:
  "ascii ''z'' \<notin> set (map fst [(ascii ''x'', VInt 1), (ascii ''y'', VStr (ascii ''a''))])
   \<and> (\<exists>msg. visit no_files 0 (Variable (ascii ''z''))
          (Interpreter\<lparr>variables := [(ascii ''x'', VInt 1), (ascii ''y'', VStr (ascii ''a''))]\<rparr>)
        = (Raise (RuntimeError msg),
           Interpreter\<lparr>variables := [(ascii ''x'', VInt 1), (ascii ''y'', VStr (ascii ''a''))]\<rparr>)
      \<and> sublist (ascii ''z'') msg \<and> sublist (ascii ''x, y'') msg)"
proof -
  let ?s = "Interpreter\<lparr>variables := [(ascii ''x'', VInt 1), (ascii ''y'', VStr (ascii ''a''))]\<rparr>"
  have h: "ascii ''z'' \<notin> set (map fst (variables ?s))"
    by (simp add: ascii_def)
  have j: "join (ascii '', '') (map fst (variables ?s)) = ascii ''x, y''"
    by (simp add: ascii_def)
  from C7_unbound_variable [OF h, of no_files 0] show ?thesis
    unfolding j using h by auto
qed

section \<open>Conditions that are not boolean\<close>

text \<open>
  Claim C2 says that an \<open>If\<close> and a \<open>While\<close> alike fail with a \<open>RuntimeError\<close> when the
  condition yields a value that is not a boolean. \<open>visit_If\<close> tests
  \<open>isinstance(condition, bool)\<close> and does so; \<open>visit_While\<close> has no such test and takes
  the truth value of whatever the condition yields. The source text of a loop on the
  number 0 parses to a \<open>While\<close> on that number, and the loop ends at once without an
  error, as does one on the empty text; a loop on a variable that holds 2 and is
  decremented by its body runs the body twice and ends when the variable is 0.
\<close>

theorem C2_while_accepts_non_boolean:
  "parse_text 8 [24490, 29615, 32, 40, 48, 41, 32, 123, 32, 120, 32, 61, 32, 49, 59, 32, 125]
     (ascii ''f.mylang'')
   = Return [While (Number (VInt 0)) [Assign (ascii ''x'') (Number (VInt 1))]]
 \<and> visit fs n (While (Number (VInt 0)) body) s = (Return VNone, s)
 \<and> visit fs n (While (String []) body) s = (Return VNone, s)
 \<and> visit no_files 0
      (While (Variable (ascii ''x''))
         [Assign (ascii ''x'') (BinOp (Variable (ascii ''x'')) (ascii ''-'') (Number (VInt 1)))])
      (Interpreter\<lparr>variables := [(ascii ''x'', VInt 2)]\<rparr>)
    = (Return VNone, Interpreter\<lparr>variables := [(ascii ''x'', VInt 0)]\<rparr>)
 \<and> visit fs n (If (Number (VInt 0)) true_block false_block) s
    = (Raise (RuntimeError ([26465, 20214, 34920, 36798, 24335, 24517, 39035, 20026, 24067, 23572,
                             20540, 65292, 24471, 21040, 58, 32] @ ascii ''int'')), s)"
proof (intro conjI)
  show "parse_text 8 [24490, 29615, 32, 40, 48, 41, 32, 123, 32, 120, 32, 61, 32, 49, 59, 32, 125]
     (ascii ''f.mylang'')
   = Return [While (Number (VInt 0)) [Assign (ascii ''x'') (Number (VInt 1))]]"
    by (simp add: parser_eval lexer_eval cong: bind_weak_cong)
qed (simp_all add: visit_eval)

section \<open>The iteration limit of a loop\<close>

text \<open>
  One pass of the loop of \<open>visit_While\<close> that goes round: the condition evaluated to a
  true value and the body completed. \<open>one_round\<close> gives the state after it, \<open>rounds\<close> the
  state after \<open>k\<close> such passes in a row, and \<open>None\<close> when a pass does not go round.
\<close>

definition one_round :: "filesystem \<Rightarrow> nat \<Rightarrow> ast \<Rightarrow> ast list \<Rightarrow> state \<Rightarrow> state option" where
  "one_round fs n condition body s =
     (case visit fs n condition s of
        (Return c, s1) \<Rightarrow>
          if truthy c then
            (case visit_block fs n body s1 of
               (Return v, s2) \<Rightarrow> Some s2
             | _ \<Rightarrow> None)
          else None
      | _ \<Rightarrow> None)"

fun rounds :: "filesystem \<Rightarrow> nat \<Rightarrow> ast \<Rightarrow> ast list \<Rightarrow> nat \<Rightarrow> state \<Rightarrow> state option" where
  "rounds fs n condition body 0 s = Some s"
| "rounds fs n condition body (Suc k) s =
     (case one_round fs n condition body s of
        None \<Rightarrow> None
      | Some s1 \<Rightarrow> rounds fs n condition body k s1)"

lemmas rounds_numeral =
  rounds.simps(2) [of _ _ _ _ "pred_numeral k", folded numeral_eq_Suc] for k

text \<open>The exception of the iteration limit.\<close>

definition loop_limit_error :: exn where
  "loop_limit_error = RuntimeError [24490, 29615, 27425, 25968, 36807, 22810, 65292, 21487, 33021,
                                    38519, 20837, 26080, 38480, 24490, 29615]"

text \<open>
  The program of the examples: a condition that is always true, a body that counts its
  runs in the variable \<open>i\<close>, and the state in which \<open>i\<close> is \<open>k\<close>.
\<close>

definition always_true :: ast where
  "always_true = Comparison (Number (VInt 1)) (ascii ''=='') (Number (VInt 1))"

definition count_body :: "ast list" where
  "count_body =
     [Assign (ascii ''i'') (BinOp (Variable (ascii ''i'')) (ascii ''+'') (Number (VInt 1)))]"

definition counted :: "int \<Rightarrow> state" where
  "counted k = Interpreter\<lparr>variables := [(ascii ''i'', VInt k)]\<rparr>"

lemma one_roundD:
  assumes "one_round fs n c b s = Some s2"
  obtains v s1 w where "visit fs n c s = (Return v, s1)" "truthy v"
    "visit_block fs n b s1 = (Return w, s2)"
  using assms unfolding one_round_def
  by (auto split: prod.splits result.splits if_splits)

lemma while_loop_limit:
  "i + k = 10000 \<Longrightarrow> rounds fs n c b (Suc k) s = Some s'
   \<Longrightarrow> while_loop fs n c b i s = (Raise loop_limit_error, s')"
proof (induction k arbitrary: i s)
  case 0
  then obtain s2 where r: "one_round fs n c b s = Some s2" and s': "s' = s2"
    by (auto split: option.splits)
  from r obtain v s1 w where "visit fs n c s = (Return v, s1)" "truthy v"
    "visit_block fs n b s1 = (Return w, s2)" by (rule one_roundD)
  with 0 s' show ?case
    by (subst while_loop.simps) (simp add: loop_limit_error_def)
next
  case (Suc k)
  then obtain s2 where r: "one_round fs n c b s = Some s2"
    and rest: "rounds fs n c b (Suc k) s2 = Some s'"
    by (auto split: option.splits)
  from r obtain v s1 w where "visit fs n c s = (Return v, s1)" "truthy v"
    "visit_block fs n b s1 = (Return w, s2)" by (rule one_roundD)
  moreover from Suc.prems have "Suc i + k = 10000" by simp
  then have "while_loop fs n c b (Suc i) s2 = (Raise loop_limit_error, s')"
    using rest by (rule Suc.IH)
  moreover from Suc.prems have "\<not> 10000 < i + 1" by simp
  ultimately show ?case
    by (subst while_loop.simps) simp
qed

lemma while_loop_exit:
  "i + k \<le> 10000 \<Longrightarrow> rounds fs n c b k s = Some s1 \<Longrightarrow> visit fs n c s1 = (Return v, s2)
   \<Longrightarrow> \<not> truthy v \<Longrightarrow> while_loop fs n c b i s = (Return VNone, s2)"
proof (induction k arbitrary: i s)
  case 0
  then show ?case by (subst while_loop.simps) simp
next
  case (Suc k)
  then obtain t where r: "one_round fs n c b s = Some t"
    and rest: "rounds fs n c b k t = Some s1"
    by (auto split: option.splits)
  from r obtain u t1 w where "visit fs n c s = (Return u, t1)" "truthy u"
    "visit_block fs n b t1 = (Return w, t)" by (rule one_roundD)
  moreover from Suc.prems have "Suc i + k \<le> 10000" by simp
  then have "while_loop fs n c b (Suc i) t = (Return VNone, s2)"
    using rest Suc.prems(3,4) by (rule Suc.IH)
  moreover from Suc.prems have "\<not> 10000 < i + 1" by simp
  ultimately show ?case
    by (subst while_loop.simps) simp
qed

lemma count_round: "one_round fs n always_true count_body (counted k) = Some (counted (k + 1))"
  by (simp add: one_round_def always_true_def count_body_def counted_def visit_eval)

lemma count_rounds:
  "rounds fs n always_true count_body j (counted k) = Some (counted (k + int j))"
  by (induction j arbitrary: k) (simp_all add: count_round add.assoc)

text \<open>
  Claim C1 says that a \<open>While\<close> whose condition stays true halts with a \<open>RuntimeError\<close>
  after exactly 10,000 completed runs of the body, at the 10,001st test of the condition.
  The code counts a run after the body and raises when the count exceeds 10,000: the
  loop that counts its runs in \<open>i\<close>, started at 0, fails with \<open>i\<close> at 10,001.
\<close>

theorem C1_counterexample:
  "visit no_files 0
     (While (Comparison (Number (VInt 1)) (ascii ''=='') (Number (VInt 1)))
        [Assign (ascii ''i'') (BinOp (Variable (ascii ''i'')) (ascii ''+'') (Number (VInt 1)))])
     (Interpreter\<lparr>variables := [(ascii ''i'', VInt 0)]\<rparr>)
   = (Raise (RuntimeError [24490, 29615, 27425, 25968, 36807, 22810, 65292, 21487, 33021,
                           38519, 20837, 26080, 38480, 24490, 29615]),
      Interpreter\<lparr>variables := [(ascii ''i'', VInt 10001)]\<rparr>)"
proof -
  have "rounds no_files 0 always_true count_body (Suc 10000) (counted 0) = Some (counted 10001)"
    using count_rounds [of no_files 0 "Suc 10000" 0] by simp
  with while_loop_limit [of 0 10000 no_files 0 always_true count_body "counted 0" "counted 10001"]
  show ?thesis
    by (simp add: always_true_def count_body_def counted_def loop_limit_error_def)
qed

text \<open>
  Claim C1 as amended: when the condition is true and the body completes 10,001 times in
  a row, the \<open>While\<close> fails with the \<open>RuntimeError\<close> of the limit in the state that the
  10,001st run of the body leaves (the condition is not tested again); and when the
  condition is false after \<open>k \<le> 10,000\<close> such rounds, the \<open>While\<close> ends normally. So an
  activation that ends normally has run its body at most 10,000 times, and none runs it
  more than 10,001 times.
\<close>

theorem C1_limit_after_10001_rounds:
  "(rounds fs n condition body 10001 s = Some s'
      \<longrightarrow> visit fs n (While condition body) s = (Raise loop_limit_error, s'))
 \<and> (k \<le> 10000 \<and> rounds fs n condition body k s = Some s1
      \<and> visit fs n condition s1 = (Return v, s2) \<and> \<not> truthy v
      \<longrightarrow> visit fs n (While condition body) s = (Return VNone, s2))"
proof (intro conjI impI)
  assume "rounds fs n condition body 10001 s = Some s'"
  then have "rounds fs n condition body (Suc 10000) s = Some s'" by simp
  with while_loop_limit [of 0 10000 fs n condition body s s']
  show "visit fs n (While condition body) s = (Raise loop_limit_error, s')"
    by (simp add: loop_limit_error_def)
next
  assume "k \<le> 10000 \<and> rounds fs n condition body k s = Some s1
      \<and> visit fs n condition s1 = (Return v, s2) \<and> \<not> truthy v"
  with while_loop_exit [of 0 k fs n condition body s s1 v s2]
  show "visit fs n (While condition body) s = (Return VNone, s2)"
    by simp
qed

theorem C1_limit_after_10001_rounds_witness:
  "rounds no_files 0 always_true count_body 10001 (counted 0) = Some (counted 10001)
   \<and> visit no_files 0 (While always_true count_body) (counted 0)
       = (Raise loop_limit_error, counted 10001)
   \<and> (3::nat) \<le> 10000
   \<and> rounds no_files 0 (Comparison (Variable (ascii ''i'')) (ascii ''<'') (Number (VInt 3)))
        count_body 3 (counted 0) = Some (counted 3)
   \<and> visit no_files 0 (Comparison (Variable (ascii ''i'')) (ascii ''<'') (Number (VInt 3))) (counted 3)
       = (Return (VBool False), counted 3)
   \<and> \<not> truthy (VBool False)
   \<and> visit no_files 0
        (While (Comparison (Variable (ascii ''i'')) (ascii ''<'') (Number (VInt 3))) count_body)
        (counted 0) = (Return VNone, counted 3)"
proof -
  let ?c = "Comparison (Variable (ascii ''i'')) (ascii ''<'') (Number (VInt 3))"
  have a: "rounds no_files 0 always_true count_body 10001 (counted 0) = Some (counted 10001)"
    using count_rounds [of no_files 0 10001 0] by simp
  have b: "rounds no_files 0 ?c count_body 3 (counted 0) = Some (counted 3)"
    by (simp add: rounds_numeral one_round_def count_body_def counted_def visit_eval)
  have c: "visit no_files 0 ?c (counted 3) = (Return (VBool False), counted 3)"
    by (simp add: counted_def visit_eval)
  from C1_limit_after_10001_rounds [of no_files 0 always_true count_body "counted 0" "counted 10001"
      3 "counted 3" "VBool False" "counted 3"] a
  have d: "visit no_files 0 (While always_true count_body) (counted 0)
       = (Raise loop_limit_error, counted 10001)" by blast
  from C1_limit_after_10001_rounds [of no_files 0 ?c count_body "counted 0" "counted 10001"
      3 "counted 3" "VBool False" "counted 3"] b c
  have e: "visit no_files 0 (While ?c count_body) (counted 0) = (Return VNone, counted 3)"
    by simp
  from a b c d e show ?thesis by simp
qed

section \<open>Comparisons and division\<close>

lemma visit_Comparison_values:
  "visit fs n left s = (Return l, s1) \<Longrightarrow> visit fs n right s1 = (Return r, s2)
   \<Longrightarrow> visit fs n (Comparison left op right) s = handle (raise_or_return (compare op l r) s2)"
  by simp

lemma visit_BinOp_values:
  "visit fs n left s = (Return l, s1) \<Longrightarrow> visit fs n right s1 = (Return r, s2)
   \<Longrightarrow> visit fs n (BinOp left op right) s = handle (raise_or_return (binop op l r) s2)"
  by simp

subsection \<open>Ordering comparisons\<close>

text \<open>
  The four ordering operators, the order on numbers that each of them stands for, and the
  exception of \<open>visit_Comparison\<close> for operands of two different types.
\<close>

definition ordering_ops :: "pystr set" where
  "ordering_ops = {ascii ''<'', ascii ''<='', ascii ''>'', ascii ''>=''}"

definition num_order :: "pystr \<Rightarrow> rat \<Rightarrow> rat \<Rightarrow> bool" where
  "num_order op a b =
     (if op = ascii ''<'' then a < b
      else if op = ascii ''<='' then a \<le> b
      else if op = ascii ''>'' then a > b
      else a \<ge> b)"

definition type_mismatch :: "pyvalue \<Rightarrow> pyvalue \<Rightarrow> exn" where
  "type_mismatch l r =
     RuntimeError ([27604, 36739, 36816, 31639, 31867, 22411, 19981, 21305, 37197, 58, 32]
                   @ py_type l @ [32, 21644, 32] @ py_type r)"

lemma compare_ints:
  "op \<in> ordering_ops
   \<Longrightarrow> compare op (VInt a) (VInt b) = Inr (VBool (num_order op (of_int a) (of_int b)))"
  by (auto simp: ordering_ops_def compare_def num_order_def ascii_def)

lemma compare_floats:
  "op \<in> ordering_ops \<Longrightarrow> compare op (VFloat (Finite sa ma)) (VFloat (Finite sb mb))
     = Inr (VBool (num_order op (fl_val (Finite sa ma)) (fl_val (Finite sb mb))))"
  by (auto simp: ordering_ops_def compare_def num_order_def ascii_def fl_le_def)

lemma compare_mixed:
  "compare op (VInt a) (VFloat y) = Inl (type_mismatch (VInt a) (VFloat y))"
  "compare op (VFloat x) (VInt b) = Inl (type_mismatch (VFloat x) (VInt b))"
  by (simp_all add: compare_def type_mismatch_def ascii_def)

lemma compare_text:
  "op \<in> ordering_ops \<Longrightarrow> \<exists>m. compare op (VStr t) r = Inl (RuntimeError m)"
  "op \<in> ordering_ops \<Longrightarrow> \<exists>m. compare op l (VStr t) = Inl (RuntimeError m)"
  by (auto simp: ordering_ops_def compare_def type_error_def ascii_def Let_def)

text \<open>
  Claim C5 says that an ordering comparison of two numbers succeeds for every combination
  of integer and fraction, one integer and one fraction included. \<open>visit_Comparison\<close>
  first raises when the types of the two operands differ, for every operator: \<open>1 < 2.0\<close>
  fails with the \<open>RuntimeError\<close> of mismatched types.
\<close>

theorem C5_counterexample:
  "visit no_files 0 (Comparison (Number (VInt 1)) (ascii ''<'') (Number (VFloat (Finite False 2))))
     Interpreter
   = (Raise (RuntimeError ([27604, 36739, 36816, 31639, 31867, 22411, 19981, 21305, 37197, 58, 32]
                           @ ascii ''int'' @ [32, 21644, 32] @ ascii ''float'')), Interpreter)"
  by (simp add: compare_def ascii_def)

text \<open>
  Claim C5 as amended: on operands that evaluate to two integers, or to two (finite)
  fractions, an ordering comparison returns the boolean of the numeric order; on one
  integer and one fraction it fails with the \<open>RuntimeError\<close> of mismatched types; and when
  an operand is text it fails with a \<open>RuntimeError\<close>.
\<close>

theorem C5_ordering_of_one_kind:
  assumes "op \<in> ordering_ops"
    and "visit fs n left s = (Return l, s1)"
    and "visit fs n right s1 = (Return r, s2)"
  shows "(l = VInt a \<and> r = VInt b \<longrightarrow>
            visit fs n (Comparison left op right) s
            = (Return (VBool (num_order op (of_int a) (of_int b))), s2))
       \<and> (l = VFloat (Finite sa ma) \<and> r = VFloat (Finite sb mb) \<longrightarrow>
            visit fs n (Comparison left op right) s
            = (Return (VBool (num_order op (fl_val (Finite sa ma)) (fl_val (Finite sb mb)))), s2))
       \<and> ((l = VInt a \<and> r = VFloat y) \<or> (l = VFloat x \<and> r = VInt b) \<longrightarrow>
            visit fs n (Comparison left op right) s = (Raise (type_mismatch l r), s2))
       \<and> (l = VStr t \<or> r = VStr t \<longrightarrow>
            (\<exists>m. visit fs n (Comparison left op right) s = (Raise (RuntimeError m), s2)))"
proof -
  note v = visit_Comparison_values [OF assms(2,3), of op]
  have "l = VInt a \<and> r = VInt b \<longrightarrow>
            visit fs n (Comparison left op right) s
            = (Return (VBool (num_order op (of_int a) (of_int b))), s2)"
    using v compare_ints [OF assms(1)] by auto
  moreover have "l = VFloat (Finite sa ma) \<and> r = VFloat (Finite sb mb) \<longrightarrow>
            visit fs n (Comparison left op right) s
            = (Return (VBool (num_order op (fl_val (Finite sa ma)) (fl_val (Finite sb mb)))), s2)"
    using v compare_floats [OF assms(1)] by auto
  moreover have "(l = VInt a \<and> r = VFloat y) \<or> (l = VFloat x \<and> r = VInt b) \<longrightarrow>
            visit fs n (Comparison left op right) s = (Raise (type_mismatch l r), s2)"
    using v by (auto simp: compare_mixed type_mismatch_def)
  moreover have "l = VStr t \<or> r = VStr t \<longrightarrow>
            (\<exists>m. visit fs n (Comparison left op right) s = (Raise (RuntimeError m), s2))"
  proof
    assume "l = VStr t \<or> r = VStr t"
    then obtain m where "compare op l r = Inl (RuntimeError m)"
      using compare_text [OF assms(1)] by blast
    with v show "\<exists>m. visit fs n (Comparison left op right) s = (Raise (RuntimeError m), s2)"
      by simp
  qed
  ultimately show ?thesis by blast
qed

theorem C5_ordering_of_one_kind_witness:
  "ascii ''<'' \<in> ordering_ops
 \<and> visit no_files 0 (Number (VInt 1)) Interpreter = (Return (VInt 1), Interpreter)
 \<and> visit no_files 0 (Number (VInt 2)) Interpreter = (Return (VInt 2), Interpreter)
 \<and> visit no_files 0 (Comparison (Number (VInt 1)) (ascii ''<'') (Number (VInt 2))) Interpreter
     = (Return (VBool True), Interpreter)
 \<and> visit no_files 0 (Number (VFloat (Finite False (3 / 2)))) Interpreter
     = (Return (VFloat (Finite False (3 / 2))), Interpreter)
 \<and> visit no_files 0 (Number (VFloat (Finite True (1 / 2)))) Interpreter
     = (Return (VFloat (Finite True (1 / 2))), Interpreter)
 \<and> visit no_files 0 (Comparison (Number (VFloat (Finite False (3 / 2)))) (ascii ''<'')
                        (Number (VFloat (Finite True (1 / 2))))) Interpreter
     = (Return (VBool False), Interpreter)
 \<and> visit no_files 0 (Comparison (Number (VInt 1)) (ascii ''<'')
                        (Number (VFloat (Finite False (3 / 2))))) Interpreter
     = (Raise (type_mismatch (VInt 1) (VFloat (Finite False (3 / 2)))), Interpreter)
 \<and> visit no_files 0 (String (ascii ''a'')) Interpreter = (Return (VStr (ascii ''a'')), Interpreter)
 \<and> (\<exists>m. visit no_files 0 (Comparison (String (ascii ''a'')) (ascii ''<'') (Number (VInt 2)))
            Interpreter = (Raise (RuntimeError m), Interpreter))"
proof -
  have op: "ascii ''<'' \<in> ordering_ops"
    by (simp add: ordering_ops_def)
  have n1: "visit no_files 0 (Number (VInt 1)) Interpreter = (Return (VInt 1), Interpreter)"
    and n2: "visit no_files 0 (Number (VInt 2)) Interpreter = (Return (VInt 2), Interpreter)"
    and f1: "visit no_files 0 (Number (VFloat (Finite False (3 / 2)))) Interpreter
             = (Return (VFloat (Finite False (3 / 2))), Interpreter)"
    and f2: "visit no_files 0 (Number (VFloat (Finite True (1 / 2)))) Interpreter
             = (Return (VFloat (Finite True (1 / 2))), Interpreter)"
    and sa: "visit no_files 0 (String (ascii ''a'')) Interpreter
             = (Return (VStr (ascii ''a'')), Interpreter)"
    by simp_all
  from C5_ordering_of_one_kind [OF op n1 n2, of 1 2]
  have a: "visit no_files 0 (Comparison (Number (VInt 1)) (ascii ''<'') (Number (VInt 2)))
             Interpreter = (Return (VBool True), Interpreter)"
    by (simp add: num_order_def)
  from C5_ordering_of_one_kind [OF op f1 f2, where sa = False and ma = "3 / 2" and sb = True
      and mb = "1 / 2"]
  have b: "visit no_files 0 (Comparison (Number (VFloat (Finite False (3 / 2)))) (ascii ''<'')
                        (Number (VFloat (Finite True (1 / 2))))) Interpreter
     = (Return (VBool False), Interpreter)"
    by (simp add: num_order_def)
  from C5_ordering_of_one_kind [OF op n1 f1, where a = 1 and y = "Finite False (3 / 2)"]
  have c: "visit no_files 0 (Comparison (Number (VInt 1)) (ascii ''<'')
                        (Number (VFloat (Finite False (3 / 2))))) Interpreter
     = (Raise (type_mismatch (VInt 1) (VFloat (Finite False (3 / 2)))), Interpreter)"
    by simp
  from C5_ordering_of_one_kind [OF op sa n2, where t = "ascii ''a''"]
  have d: "\<exists>m. visit no_files 0 (Comparison (String (ascii ''a'')) (ascii ''<'') (Number (VInt 2)))
            Interpreter = (Raise (RuntimeError m), Interpreter)"
    by simp
  from op n1 n2 f1 f2 sa a b c d show ?thesis by blast
qed

subsection \<open>Division\<close>

definition division_by_zero :: exn where
  "division_by_zero = RuntimeError [38500, 20197, 38646, 38169, 35823]"

text \<open>The \<open>OverflowError\<close> of the division of two integers, as \<open>visit\<close> raises it again.\<close>

definition division_overflow :: exn where
  "division_overflow =
     RuntimeError ([36816, 34892, 26102, 38169, 35823, 58, 32]
                   @ ascii ''integer division result too large for a float'')"

lemma fl_of_int_cases:
  "(\<exists>x. fl_of_int i = Inr x) \<or> (\<exists>m. fl_of_int i = Inl (OtherException m))"
  by (cases "fl_round (of_int i)") (simp_all add: fl_of_int_def)

lemma to_float_cases:
  "(\<exists>x. to_float v = Inr x) \<or> (\<exists>m. to_float v = Inl (OtherException m))"
  using fl_of_int_cases by (cases v) auto

lemma py_truediv_cases:
  "(\<exists>x. py_truediv l r = Inr (VFloat x)) \<or> (\<exists>m. py_truediv l r = Inl (OtherException m))"
proof -
  consider (z) "is_zero r" | (i) "\<not> is_zero r" "is_int l \<and> is_int r"
    | (f) "\<not> is_zero r" "\<not> (is_int l \<and> is_int r)" by blast
  then show ?thesis
  proof cases
    case z
    then show ?thesis by (simp add: py_truediv_def)
  next
    case i
    then show ?thesis
      by (cases "fl_round (of_int (int_of l) / of_int (int_of r))")
         (simp_all add: py_truediv_def)
  next
    case f
    then show ?thesis
      using to_float_cases [of l] to_float_cases [of r]
      by (auto simp: py_truediv_def)
  qed
qed

lemma binop_div:
  "binop (ascii ''/'') l r =
     (if is_num l \<and> is_num r then (if is_zero r then Inl division_by_zero else py_truediv l r)
      else Inl (type_error [19981, 25903, 25345, 30340, 31867, 22411, 30456, 38500, 58, 32]
                  l (ascii ''/'') r))"
  by (simp add: binop_def ascii_def division_by_zero_def)

lemma fl_round_third: "fl_round (1 / 3) = Finite False (6004799503160661 / 18014398509481984)"
  by code_simp

lemma fl_round_two: "fl_round 2 = Finite False 2"
  by code_simp

text \<open>
  Claim C8 says that a division by a number that is not zero yields the exact rational
  quotient. The quotient is a Python float: \<open>1 / 3\<close> evaluates to the float nearest to one
  third, which is \<open>6004799503160661 / 2^54\<close> and not one third.
\<close>

theorem C8_counterexample:
  "visit no_files 0 (BinOp (Number (VInt 1)) (ascii ''/'') (Number (VInt 3))) Interpreter
   = (Return (VFloat (Finite False (6004799503160661 / 18014398509481984))), Interpreter)
   \<and> (6004799503160661 / 18014398509481984 :: rat) \<noteq> 1 / 3"
  by (simp add: binop_def py_truediv_def ascii_def fl_round_third)

text \<open>
  Claim C8 as amended: a division whose operands are not both numbers (integers and
  fractions; a boolean counts as an integer for Python) fails with a \<open>RuntimeError\<close>; one
  whose right operand is zero fails with the \<open>RuntimeError\<close> of the division by zero;
  every other one yields a fraction (a float) or fails with a \<open>RuntimeError\<close>; and for two
  integers that are not zero the result is the exact quotient rounded to the nearest float
  (the quotient itself when it is a float, as for \<open>6 / 3\<close>), or the \<open>RuntimeError\<close> of the
  overflow when that is beyond the largest float.
\<close>

theorem C8_division:
  assumes "visit fs n left s = (Return l, s1)"
    and "visit fs n right s1 = (Return r, s2)"
  shows "(\<not> (is_num l \<and> is_num r) \<longrightarrow>
            visit fs n (BinOp left (ascii ''/'') right) s
            = (Raise (type_error [19981, 25903, 25345, 30340, 31867, 22411, 30456, 38500, 58, 32]
                        l (ascii ''/'') r), s2))
       \<and> (is_num l \<and> is_num r \<and> is_zero r \<longrightarrow>
            visit fs n (BinOp left (ascii ''/'') right) s = (Raise division_by_zero, s2))
       \<and> (is_num l \<and> is_num r \<and> \<not> is_zero r \<longrightarrow>
            (\<exists>x. visit fs n (BinOp left (ascii ''/'') right) s = (Return (VFloat x), s2))
          \<or> (\<exists>m. visit fs n (BinOp left (ascii ''/'') right) s = (Raise (RuntimeError m), s2)))
       \<and> (l = VInt a \<and> r = VInt b \<and> a \<noteq> 0 \<and> b \<noteq> 0 \<longrightarrow>
            visit fs n (BinOp left (ascii ''/'') right) s
            = (case fl_round (of_int a / of_int b) of
                 Infinity sg \<Rightarrow> (Raise division_overflow, s2)
               | x \<Rightarrow> (Return (VFloat x), s2)))"
proof -
  note v = visit_BinOp_values [OF assms, of "ascii ''/''"]
  have 1: "\<not> (is_num l \<and> is_num r) \<longrightarrow>
            visit fs n (BinOp left (ascii ''/'') right) s
            = (Raise (type_error [19981, 25903, 25345, 30340, 31867, 22411, 30456, 38500, 58, 32]
                        l (ascii ''/'') r), s2)"
    using v by (auto simp: binop_div type_error_def)
  have 2: "is_num l \<and> is_num r \<and> is_zero r \<longrightarrow>
            visit fs n (BinOp left (ascii ''/'') right) s = (Raise division_by_zero, s2)"
    using v by (auto simp: binop_div division_by_zero_def)
  have 3: "is_num l \<and> is_num r \<and> \<not> is_zero r \<longrightarrow>
            (\<exists>x. visit fs n (BinOp left (ascii ''/'') right) s = (Return (VFloat x), s2))
          \<or> (\<exists>m. visit fs n (BinOp left (ascii ''/'') right) s = (Raise (RuntimeError m), s2))"
    using v py_truediv_cases [of l r] by (auto simp: binop_div)
  have 4: "l = VInt a \<and> r = VInt b \<and> a \<noteq> 0 \<and> b \<noteq> 0 \<longrightarrow>
            visit fs n (BinOp left (ascii ''/'') right) s
            = (case fl_round (of_int a / of_int b) of
                 Infinity sg \<Rightarrow> (Raise division_overflow, s2)
               | x \<Rightarrow> (Return (VFloat x), s2))"
    using v
    by (cases "fl_round (of_int a / of_int b)")
       (auto simp: binop_div py_truediv_def division_overflow_def)
  from 1 2 3 4 show ?thesis by blast
qed

theorem C8_division_witness:
  "visit no_files 0 (Number (VInt 6)) Interpreter = (Return (VInt 6), Interpreter)
 \<and> visit no_files 0 (Number (VInt 3)) Interpreter = (Return (VInt 3), Interpreter)
 \<and> is_num (VInt 6) \<and> is_num (VInt 3) \<and> \<not> is_zero (VInt 3) \<and> (6::int) \<noteq> 0 \<and> (3::int) \<noteq> 0
 \<and> visit no_files 0 (BinOp (Number (VInt 6)) (ascii ''/'') (Number (VInt 3))) Interpreter
     = (Return (VFloat (Finite False 2)), Interpreter)
 \<and> visit no_files 0 (Number (VInt 0)) Interpreter = (Return (VInt 0), Interpreter)
 \<and> is_num (VInt 0) \<and> is_zero (VInt 0)
 \<and> visit no_files 0 (BinOp (Number (VInt 6)) (ascii ''/'') (Number (VInt 0))) Interpreter
     = (Raise division_by_zero, Interpreter)
 \<and> visit no_files 0 (String (ascii ''a'')) Interpreter = (Return (VStr (ascii ''a'')), Interpreter)
 \<and> \<not> (is_num (VStr (ascii ''a'')) \<and> is_num (VInt 3))
 \<and> visit no_files 0 (BinOp (String (ascii ''a'')) (ascii ''/'') (Number (VInt 3))) Interpreter
     = (Raise (type_error [19981, 25903, 25345, 30340, 31867, 22411, 30456, 38500, 58, 32]
                (VStr (ascii ''a'')) (ascii ''/'') (VInt 3)), Interpreter)"
proof -
  have n6: "visit no_files 0 (Number (VInt 6)) Interpreter = (Return (VInt 6), Interpreter)"
    and n3: "visit no_files 0 (Number (VInt 3)) Interpreter = (Return (VInt 3), Interpreter)"
    and n0: "visit no_files 0 (Number (VInt 0)) Interpreter = (Return (VInt 0), Interpreter)"
    and sa: "visit no_files 0 (String (ascii ''a'')) Interpreter
             = (Return (VStr (ascii ''a'')), Interpreter)"
    by simp_all
  have q: "fl_round (of_int 6 / of_int 3) = Finite False 2"
    using fl_round_two by simp
  from C8_division [OF n6 n3, of 6 3]
  have a: "visit no_files 0 (BinOp (Number (VInt 6)) (ascii ''/'') (Number (VInt 3))) Interpreter
     = (Return (VFloat (Finite False 2)), Interpreter)"
    unfolding q by simp
  from C8_division [OF n6 n0]
  have b: "visit no_files 0 (BinOp (Number (VInt 6)) (ascii ''/'') (Number (VInt 0))) Interpreter
     = (Raise division_by_zero, Interpreter)"
    by simp
  from C8_division [OF sa n3]
  have c: "visit no_files 0 (BinOp (String (ascii ''a'')) (ascii ''/'') (Number (VInt 3))) Interpreter
     = (Raise (type_error [19981, 25903, 25345, 30340, 31867, 22411, 30456, 38500, 58, 32]
                (VStr (ascii ''a'')) (ascii ''/'') (VInt 3)), Interpreter)"
    by simp
  from n6 n3 n0 sa a b c show ?thesis by simp
qed

section \<open>What a visit can raise\<close>

text \<open>A \<open>RuntimeError\<close> with a message that is not empty.\<close>

definition runtime_failure :: "exn \<Rightarrow> bool" where
  "runtime_failure e = (\<exists>m. e = RuntimeError m \<and> m \<noteq> [])"

lemma runtime_failureI [simp]: "m \<noteq> [] \<Longrightarrow> runtime_failure (RuntimeError m)"
  by (simp add: runtime_failure_def)

lemma handle_Raise:
  assumes "handle r = (Raise e, s')"
    and "\<And>e0. r = (Raise e0, s') \<Longrightarrow> runtime_failure e0 \<or> (\<exists>m. e0 = OtherException m)"
  shows "runtime_failure e"
proof -
  obtain x s0 where r: "r = (x, s0)" by (cases r)
  show ?thesis
  proof (cases x)
    case (Raise e0)
    with r assms(1) have s0: "s0 = s'" by (cases e0) auto
    with r Raise assms(2) have "runtime_failure e0 \<or> (\<exists>m. e0 = OtherException m)" by simp
    with r Raise assms(1) show ?thesis
      by (auto simp: runtime_failure_def)
  qed (use r assms(1) in auto)
qed

lemma compare_raises: "compare op l r = Inl e \<Longrightarrow> runtime_failure e"
  by (auto simp: compare_def type_error_def Let_def split: if_splits)

lemma num_op_raises: "num_op fi ff l r = Inl e \<Longrightarrow> \<exists>m. e = OtherException m"
  using to_float_cases [of l] to_float_cases [of r]
  by (auto simp: num_op_def split: if_splits sum.splits)

lemma py_truediv_raises: "py_truediv l r = Inl e \<Longrightarrow> \<exists>m. e = OtherException m"
  using py_truediv_cases [of l r] by auto

lemma binop_raises:
  "binop op l r = Inl e \<Longrightarrow> runtime_failure e \<or> (\<exists>m. e = OtherException m)"
  by (auto simp: binop_def type_error_def split: if_splits
      dest: num_op_raises py_truediv_raises)

lemma visit_Variable_raises: "visit_Variable name s = (Raise e, s') \<Longrightarrow> runtime_failure e"
  by (auto simp: visit_Variable_def Let_def split: option.splits)

lemma find_module_raises: "find_module fs name = Inl e \<Longrightarrow> \<exists>m. e = OtherException m"
  by (auto simp: find_module_def Let_def split: if_splits sum.splits list.splits)

lemma import_error_failure [simp]: "runtime_failure (import_error name e)"
  by (simp add: import_error_def)

lemma not_MyLangError: "\<not> is_MyLangError e \<Longrightarrow> \<exists>m. e = OtherException m"
  by (cases e) auto

lemma raise_or_return_Raise: "raise_or_return x s = (Raise e, s') \<Longrightarrow> x = Inl e \<and> s' = s"
  by (cases x) auto

text \<open>
  Every exception that leaves \<open>visit\<close> is a \<open>RuntimeError\<close> with a message: what the
  methods raise themselves is one, and \<open>visit\<close> turns every other exception into one.
\<close>

lemma raises_runtime_failure:
  "visit fs n node s = (Raise e, s') \<Longrightarrow> runtime_failure e"
  "visit_block fs n stmts s = (Raise e, s') \<Longrightarrow> runtime_failure e"
  "while_loop fs n c b i s = (Raise e, s') \<Longrightarrow> runtime_failure e"
proof (induction fs n node s and fs n stmts s and fs n c b i s
    arbitrary: e s' and e s' and e s' rule: visit_visit_block_while_loop.induct)
  case (1 fs n v s)
  then show ?case by simp
next
  case (2 fs n v s)
  then show ?case by simp
next
  case (3 fs n name s)
  then show ?case
    by (auto elim!: handle_Raise dest: visit_Variable_raises)
next
  case (4 fs n var e0 s)
  from 4 show ?case
    by (auto elim!: handle_Raise split: prod.splits result.splits)
next
  case (5 fs n e0 s)
  from 5 show ?case
    by (auto elim!: handle_Raise split: prod.splits result.splits)
next
  case (6 fs n left op right s)
  from 6 show ?case
    by (auto elim!: handle_Raise split: prod.splits result.splits
        dest: compare_raises raise_or_return_Raise)
next
  case (7 fs n left op right s)
  from 7 show ?case
    by (auto elim!: handle_Raise split: prod.splits result.splits
        dest: binop_raises raise_or_return_Raise)
next
  case (8 fs n condition true_block false_block s)
  from 8 show ?case
    by (auto elim!: handle_Raise split: prod.splits result.splits pyvalue.splits if_splits
        option.splits)
next
  case (9 fs n condition body s)
  from 9 show ?case
    by (auto elim!: handle_Raise)
next
  case (10 fs n name s)
  from 10 show ?case
    by (auto elim!: handle_Raise simp: Let_def
        split: if_splits sum.splits option.splits nat.splits result.splits prod.splits
        dest: find_module_raises not_MyLangError)
next
  case (11 fs n try_block catch_block error_var s)
  from 11 show ?case
    by (auto elim!: handle_Raise split: prod.splits result.splits)
next
  case (12 fs n s)
  then show ?case by simp
next
  case (13 fs n stmt stmts s)
  from 13 show ?case
    by (auto split: prod.splits result.splits)
next
  case (14 fs n condition body iterations s)
  from 14(4) have "(case visit fs n condition s of
        (Return c, s1) \<Rightarrow>
          if truthy c then
            (case visit_block fs n body s1 of
               (Return v, s2) \<Rightarrow>
                 if 10000 < iterations + 1
                 then (Raise (RuntimeError
                         [24490, 29615, 27425, 25968, 36807, 22810, 65292, 21487, 33021, 38519,
                          20837, 26080, 38480, 24490, 29615]), s2)
                 else while_loop fs n condition body (iterations + 1) s2
             | r \<Rightarrow> r)
          else (Return VNone, s1)
      | r \<Rightarrow> r) = (Raise e, s')"
    by (subst (asm) while_loop.simps)
  with 14(1,2,3) show ?case
    by (auto split: prod.splits result.splits if_splits)
qed

section \<open>Try and catch\<close>

lemma handle_visit_block [simp]: "handle (visit_block fs n stmts s) = visit_block fs n stmts s"
proof (cases "visit_block fs n stmts s")
  case (Pair r s')
  show ?thesis
  proof (cases r)
    case (Raise e)
    with Pair raises_runtime_failure(2) [of fs n stmts s e s'] show ?thesis
      by (auto simp: runtime_failure_def)
  qed (use Pair in auto)
qed

lemma map_of_setitem: "map_of (setitem k v d) x = (if x = k then Some v else map_of d x)"
  by (induction d) auto

lemma keys_setitem: "fst ` set (setitem k v d) = insert k (fst ` set d)"
  unfolding dom_map_of_conv_image_fst [symmetric]
  by (auto simp: map_of_setitem dom_def split: if_splits)

lemma variables_assign [simp]: "variables (assign k v s) = setitem k v (variables s)"
  by (simp add: assign_def)

lemma visit_block_append:
  "visit_block fs n before s = (Return v, s1)
   \<Longrightarrow> visit_block fs n (before @ stmts) s = visit_block fs n stmts s1"
  by (induction before arbitrary: s) (auto split: prod.splits result.splits)

lemma visit_block_fails:
  "visit_block fs n before s = (Return v, s1) \<Longrightarrow> visit fs n stmt s1 = (Raise e, s2)
   \<Longrightarrow> visit_block fs n (before @ stmt # rest) s = (Raise e, s2)"
  by (simp add: visit_block_append)

text \<open>
  Claim C6: when the try-block fails, the catch-block runs in the state the failure left,
  with the catch variable bound to the text of the failure, which is not empty; when the
  try-block completes, the \<open>TryCatch\<close> ends in the state the try-block left: the
  catch-block is not run and the catch variable is not bound by it.
\<close>

theorem C6_try_catch:
  "(visit_block fs n try_block s = (Raise e, s1) \<longrightarrow>
      exn_str e \<noteq> []
    \<and> map_of (variables (assign error_var (VStr (exn_str e)) s1)) error_var = Some (VStr (exn_str e))
    \<and> visit fs n (TryCatch try_block catch_block error_var) s
      = visit_block fs n catch_block (assign error_var (VStr (exn_str e)) s1))
 \<and> (visit_block fs n try_block s = (Return v, s1) \<longrightarrow>
      visit fs n (TryCatch try_block catch_block error_var) s = (Return v, s1))"
proof (intro conjI impI)
  assume r: "visit_block fs n try_block s = (Raise e, s1)"
  then have "runtime_failure e" by (rule raises_runtime_failure)
  then show "exn_str e \<noteq> []" by (auto simp: runtime_failure_def)
  show "map_of (variables (assign error_var (VStr (exn_str e)) s1)) error_var
        = Some (VStr (exn_str e))"
    by (simp add: map_of_setitem)
  from r show "visit fs n (TryCatch try_block catch_block error_var) s
      = visit_block fs n catch_block (assign error_var (VStr (exn_str e)) s1)"
    by simp
next
  assume "visit_block fs n try_block s = (Return v, s1)"
  then show "visit fs n (TryCatch try_block catch_block error_var) s = (Return v, s1)"
    by simp
qed


text \<open>The names bound in the environment. No visit ever unbinds a name.\<close>

definition bound :: "state \<Rightarrow> pystr set" where
  "bound s = fst ` set (variables s)"

lemma bound_assign [simp]: "bound (assign k v s) = insert k (bound s)"
  by (simp add: bound_def keys_setitem)

lemma bound_update [simp]:
  "bound (s\<lparr>stdout := out\<rparr>) = bound s"
  "bound (s\<lparr>imported_modules := im\<rparr>) = bound s"
  "bound (s\<lparr>opened := op\<rparr>) = bound s"
  by (simp_all add: bound_def)

lemma handle_state: "handle r = (x, s') \<Longrightarrow> \<exists>y. r = (y, s')"
  by (cases r rule: handle.cases) auto

lemma raise_or_return_state: "raise_or_return x s = (y, s') \<Longrightarrow> s' = s"
  by (cases x) auto

lemma visit_Variable_state: "visit_Variable name s = (y, s') \<Longrightarrow> s' = s"
  by (auto simp: visit_Variable_def Let_def split: option.splits)

lemma bound_mono:
  "visit fs n node s = (x, s') \<Longrightarrow> bound s \<subseteq> bound s'"
  "visit_block fs n stmts s = (x, s') \<Longrightarrow> bound s \<subseteq> bound s'"
  "while_loop fs n c b i s = (x, s') \<Longrightarrow> bound s \<subseteq> bound s'"
proof (induction fs n node s and fs n stmts s and fs n c b i s
    arbitrary: x s' and x s' and x s' rule: visit_visit_block_while_loop.induct)
  case (1 fs n v s)
  then show ?case by auto
next
  case (2 fs n v s)
  then show ?case by auto
next
  case (3 fs n name s)
  then show ?case
    by (auto dest!: handle_state visit_Variable_state)
next
  case (4 fs n var e0 s)
  from 4 show ?case
    by (fastforce dest!: handle_state split: prod.splits result.splits)
next
  case (5 fs n e0 s)
  from 5 show ?case
    by (fastforce dest!: handle_state split: prod.splits result.splits)
next
  case (6 fs n left op right s)
  from 6 show ?case
    by (fastforce dest!: handle_state dest: raise_or_return_state
        split: prod.splits result.splits)
next
  case (7 fs n left op right s)
  from 7 show ?case
    by (fastforce dest!: handle_state dest: raise_or_return_state
        split: prod.splits result.splits)
next
  case (8 fs n condition true_block false_block s)
  from 8 show ?case
    by (fastforce dest!: handle_state
        split: prod.splits result.splits pyvalue.splits if_splits option.splits)
next
  case (9 fs n condition body s)
  from 9 show ?case
    by (auto dest!: handle_state)
next
  case (10 fs n name s)
  from 10 show ?case
    by (fastforce dest!: handle_state simp: Let_def
        split: if_splits sum.splits option.splits nat.splits result.splits prod.splits)
next
  case (11 fs n try_block catch_block error_var s)
  from 11 show ?case
    by (fastforce dest!: handle_state split: prod.splits result.splits)
next
  case (12 fs n s)
  then show ?case by simp
next
  case (13 fs n stmt stmts s)
  from 13 show ?case
    by (fastforce split: prod.splits result.splits)
next
  case (14 fs n condition body iterations s)
  from 14(4) have "(case visit fs n condition s of
        (Return c, s1) \<Rightarrow>
          if truthy c then
            (case visit_block fs n body s1 of
               (Return v, s2) \<Rightarrow>
                 if 10000 < iterations + 1
                 then (Raise (RuntimeError
                         [24490, 29615, 27425, 25968, 36807, 22810, 65292, 21487, 33021, 38519,
                          20837, 26080, 38480, 24490, 29615]), s2)
                 else while_loop fs n condition body (iterations + 1) s2
             | r \<Rightarrow> r)
          else (Return VNone, s1)
      | r \<Rightarrow> r) = (x, s')"
    by (subst (asm) while_loop.simps)
  with 14(1,2,3) show ?case
    by (fastforce split: prod.splits result.splits if_splits)
qed

text \<open>
  Claim C10: when the statements before the failing one have completed and left the
  state \<open>s1\<close>, and the failing statement has left \<open>s2\<close>, the catch-block runs in \<open>s2\<close>
  with the catch variable bound: every name other than the catch variable has the value
  it had when the statement failed, and every name bound in \<open>s1\<close> is bound. Nothing is
  rolled back to the state at the entry of the try-block.
\<close>

theorem C10_no_rollback:
  assumes "visit_block fs n before s = (Return v, s1)"
    and "visit fs n stmt s1 = (Raise e, s2)"
  shows "visit fs n (TryCatch (before @ stmt # rest) catch_block error_var) s
         = visit_block fs n catch_block (assign error_var (VStr (exn_str e)) s2)
       \<and> (\<forall>x. x \<noteq> error_var \<longrightarrow>
              map_of (variables (assign error_var (VStr (exn_str e)) s2)) x
              = map_of (variables s2) x)
       \<and> bound s1 \<subseteq> bound (assign error_var (VStr (exn_str e)) s2)"
proof (intro conjI)
  from assms have "visit_block fs n (before @ stmt # rest) s = (Raise e, s2)"
    by (rule visit_block_fails)
  then show "visit fs n (TryCatch (before @ stmt # rest) catch_block error_var) s
         = visit_block fs n catch_block (assign error_var (VStr (exn_str e)) s2)"
    by simp
  show "\<forall>x. x \<noteq> error_var \<longrightarrow>
              map_of (variables (assign error_var (VStr (exn_str e)) s2)) x
              = map_of (variables s2) x"
    by (simp add: map_of_setitem)
  from assms(2) have "bound s1 \<subseteq> bound s2" by (rule bound_mono)
  then show "bound s1 \<subseteq> bound (assign error_var (VStr (exn_str e)) s2)"
    by auto
qed


text \<open>A try-block that divides by zero and a catch-block that prints the message.\<close>

definition failing_try :: "ast list" where
  "failing_try = [Assign (ascii ''x'') (BinOp (Number (VInt 10)) (ascii ''/'') (Number (VInt 0))),
                  Print (Variable (ascii ''x''))]"

definition report_catch :: "ast list" where
  "report_catch = [Print (BinOp (String (ascii ''caught:'')) (ascii ''+'') (Variable (ascii ''e'')))]"

theorem C6_try_catch_witness:
  "visit_block no_files 0 failing_try Interpreter = (Raise division_by_zero, Interpreter)
 \<and> visit no_files 0 (TryCatch failing_try report_catch (ascii ''e'')) Interpreter
     = (Return VNone,
        Interpreter\<lparr>variables := [(ascii ''e'', VStr [38500, 20197, 38646, 38169, 35823])],
                     stdout := [ascii ''caught:'' @ [38500, 20197, 38646, 38169, 35823]]\<rparr>)
 \<and> visit_block no_files 0 [Assign (ascii ''x'') (Number (VInt 1))] Interpreter
     = (Return VNone, Interpreter\<lparr>variables := [(ascii ''x'', VInt 1)]\<rparr>)
 \<and> visit no_files 0 (TryCatch [Assign (ascii ''x'') (Number (VInt 1))] report_catch (ascii ''e''))
       Interpreter
     = (Return VNone, Interpreter\<lparr>variables := [(ascii ''x'', VInt 1)]\<rparr>)"
proof -
  have a: "visit_block no_files 0 failing_try Interpreter = (Raise division_by_zero, Interpreter)"
    by (simp add: failing_try_def division_by_zero_def visit_eval)
  have b: "visit_block no_files 0 [Assign (ascii ''x'') (Number (VInt 1))] Interpreter
     = (Return VNone, Interpreter\<lparr>variables := [(ascii ''x'', VInt 1)]\<rparr>)"
    by (simp add: visit_eval)
  have c: "visit_block no_files 0 report_catch
             (assign (ascii ''e'') (VStr (exn_str division_by_zero)) Interpreter)
           = (Return VNone,
        Interpreter\<lparr>variables := [(ascii ''e'', VStr [38500, 20197, 38646, 38169, 35823])],
                     stdout := [ascii ''caught:'' @ [38500, 20197, 38646, 38169, 35823]]\<rparr>)"
    by (simp add: report_catch_def division_by_zero_def visit_eval)
  from C6_try_catch [where fs = no_files and n = 0 and try_block = failing_try
      and s = Interpreter and e = division_by_zero and ?s1.0 = Interpreter
      and error_var = "ascii ''e''" and catch_block = report_catch] a c
  have d: "visit no_files 0 (TryCatch failing_try report_catch (ascii ''e'')) Interpreter
     = (Return VNone,
        Interpreter\<lparr>variables := [(ascii ''e'', VStr [38500, 20197, 38646, 38169, 35823])],
                     stdout := [ascii ''caught:'' @ [38500, 20197, 38646, 38169, 35823]]\<rparr>)"
    by simp
  from C6_try_catch [where fs = no_files and n = 0
      and try_block = "[Assign (ascii ''x'') (Number (VInt 1))]" and s = Interpreter
      and error_var = "ascii ''e''" and catch_block = report_catch and v = VNone
      and ?s1.0 = "Interpreter\<lparr>variables := [(ascii ''x'', VInt 1)]\<rparr>"] b
  have e: "visit no_files 0 (TryCatch [Assign (ascii ''x'') (Number (VInt 1))] report_catch (ascii ''e''))
       Interpreter
     = (Return VNone, Interpreter\<lparr>variables := [(ascii ''x'', VInt 1)]\<rparr>)"
    by simp
  from a b d e show ?thesis by simp
qed

theorem C10_no_rollback_witness:
  "visit_block no_files 0 [Assign (ascii ''x'') (Number (VInt 1))] Interpreter
     = (Return VNone, Interpreter\<lparr>variables := [(ascii ''x'', VInt 1)]\<rparr>)
 \<and> visit no_files 0
       (Assign (ascii ''y'') (BinOp (Variable (ascii ''x'')) (ascii ''/'') (Number (VInt 0))))
       (Interpreter\<lparr>variables := [(ascii ''x'', VInt 1)]\<rparr>)
     = (Raise division_by_zero, Interpreter\<lparr>variables := [(ascii ''x'', VInt 1)]\<rparr>)
 \<and> visit no_files 0
       (TryCatch ([Assign (ascii ''x'') (Number (VInt 1))]
                  @ Assign (ascii ''y'') (BinOp (Variable (ascii ''x'')) (ascii ''/'') (Number (VInt 0)))
                  # [Assign (ascii ''z'') (Number (VInt 2))])
          [Assign (ascii ''w'') (Variable (ascii ''x''))] (ascii ''e''))
       Interpreter
     = (Return VNone,
        Interpreter\<lparr>variables := [(ascii ''x'', VInt 1),
                                     (ascii ''e'', VStr [38500, 20197, 38646, 38169, 35823]),
                                     (ascii ''w'', VInt 1)]\<rparr>)"
proof -
  let ?s1 = "Interpreter\<lparr>variables := [(ascii ''x'', VInt 1)]\<rparr>"
  have a: "visit_block no_files 0 [Assign (ascii ''x'') (Number (VInt 1))] Interpreter
           = (Return VNone, ?s1)"
    by (simp add: visit_eval)
  have b: "visit no_files 0
       (Assign (ascii ''y'') (BinOp (Variable (ascii ''x'')) (ascii ''/'') (Number (VInt 0)))) ?s1
     = (Raise division_by_zero, ?s1)"
    by (simp add: division_by_zero_def visit_eval)
  have c: "visit_block no_files 0 [Assign (ascii ''w'') (Variable (ascii ''x''))]
             (assign (ascii ''e'') (VStr (exn_str division_by_zero)) ?s1)
     = (Return VNone,
        Interpreter\<lparr>variables := [(ascii ''x'', VInt 1),
                                     (ascii ''e'', VStr [38500, 20197, 38646, 38169, 35823]),
                                     (ascii ''w'', VInt 1)]\<rparr>)"
    by (simp add: division_by_zero_def visit_eval)
  from C10_no_rollback [OF a b, of "[Assign (ascii ''z'') (Number (VInt 2))]"
      "[Assign (ascii ''w'') (Variable (ascii ''x''))]" "ascii ''e''"] c
  have d: "visit no_files 0
       (TryCatch ([Assign (ascii ''x'') (Number (VInt 1))]
                  @ Assign (ascii ''y'') (BinOp (Variable (ascii ''x'')) (ascii ''/'') (Number (VInt 0)))
                  # [Assign (ascii ''z'') (Number (VInt 2))])
          [Assign (ascii ''w'') (Variable (ascii ''x''))] (ascii ''e''))
       Interpreter
     = (Return VNone,
        Interpreter\<lparr>variables := [(ascii ''x'', VInt 1),
                                     (ascii ''e'', VStr [38500, 20197, 38646, 38169, 35823]),
                                     (ascii ''w'', VInt 1)]\<rparr>)"
    by simp
  from a b d show ?thesis by simp
qed

section \<open>Importing a module twice\<close>

text \<open>
  A machine with two modules in the current directory: \<open>a.mylang\<close> adds one to \<open>x\<close>, and
  \<open>b.mylang\<close> imports \<open>a\<close>.
\<close>

definition two_modules :: filesystem where
  "two_modules =
     \<lparr>fs_exists = (\<lambda>p. p = ascii ''a.mylang'' \<or> p = ascii ''b.mylang''),
      fs_listdir = (\<lambda>p. Inr []),
      fs_read = (\<lambda>p. if p = ascii ''a.mylang'' then Inr (ascii ''x = x + 1;'')
                      else if p = ascii ''b.mylang'' then Inr [23548, 20837, 32, 34, 97, 34, 59]
                      else Inl (ascii ''No such file or directory'')),
      fs_home = ascii ''/home/user''\<rparr>"

text \<open>An \<open>Import\<close> of a name that this interpreter has imported does nothing.\<close>

lemma import_again: "name \<in> imported_modules s \<Longrightarrow> visit fs n (Import name) s = (Return VNone, s)"
  by simp

text \<open>
  Claim C4 says that a module is read and run at most once, also when the second
  \<open>Import\<close> of its name occurs inside another imported module. \<open>visit_Import\<close> runs a
  module in a new \<open>Interpreter\<close>, which gets the dictionary of variables of the importer
  but starts with its own empty set of imported modules. The program that sets \<open>x\<close> to 0
  and imports \<open>a\<close> and then \<open>b\<close> opens \<open>a.mylang\<close> twice and runs it twice: \<open>x\<close> ends
  as 2.
\<close>

theorem C4_module_loaded_twice:
  "parse_text 10 [120, 32, 61, 32, 48, 59, 32, 23548, 20837, 32, 34, 97, 34, 59, 32, 23548, 20837, 32, 34, 98, 34, 59] (ascii ''main.mylang'')
   = Return [Assign (ascii ''x'') (Number (VInt 0)), Import (ascii ''a''), Import (ascii ''b'')]
 \<and> Interpreter_interpret two_modules 10
      [Assign (ascii ''x'') (Number (VInt 0)), Import (ascii ''a''), Import (ascii ''b'')]
      Interpreter
   = (Return VNone,
      \<lparr>variables = [(ascii ''x'', VInt 2)],
       imported_modules = {ascii ''a'', ascii ''b''},
       stdout = [],
       opened = [ascii ''a.mylang'', ascii ''b.mylang'', ascii ''a.mylang'']\<rparr>)"
proof (intro conjI)
  show "parse_text 10 [120, 32, 61, 32, 48, 59, 32, 23548, 20837, 32, 34, 97, 34, 59, 32, 23548, 20837, 32, 34, 98, 34, 59] (ascii ''main.mylang'')
   = Return [Assign (ascii ''x'') (Number (VInt 0)), Import (ascii ''a''), Import (ascii ''b'')]"
    by (simp add: parser_eval lexer_eval cong: bind_weak_cong)
  show "Interpreter_interpret two_modules 10
      [Assign (ascii ''x'') (Number (VInt 0)), Import (ascii ''a''), Import (ascii ''b'')]
      Interpreter
   = (Return VNone,
      \<lparr>variables = [(ascii ''x'', VInt 2)],
       imported_modules = {ascii ''a'', ascii ''b''},
       stdout = [],
       opened = [ascii ''a.mylang'', ascii ''b.mylang'', ascii ''a.mylang'']\<rparr>)"
    by (simp add: Interpreter_interpret_def two_modules_def find_module_def path_join_def
          visit_eval parser_eval lexer_eval insert_commute cong: bind_weak_cong)
qed

section \<open>The environment holds no boolean\<close>

subsection \<open>What the parser builds\<close>

text \<open>
  The value of a number token is an integer or a float: every token that the lexer
  returns has this property, and so has the current token of the parser at all times.
\<close>

fun is_number :: "pyvalue \<Rightarrow> bool" where
  "is_number (VInt i) = True"
| "is_number (VFloat x) = True"
| "is_number _ = False"

definition number_token :: "token \<Rightarrow> bool" where
  "number_token t = (tok_type t = NUMBER \<longrightarrow> is_number (tok_value t))"

lemma keywords_get_not_NUMBER: "keywords_get s \<noteq> NUMBER"
  by (simp add: keywords_get_def)

lemma number_value: "number l = Inr (v, l1) \<Longrightarrow> is_number v"
  by (auto simp: number_def Let_def split: prod.splits if_splits sum.splits)

lemma scan_token_number: "scan_token c l = Inr (t, l1) \<Longrightarrow> number_token t"
  by (auto simp: scan_token_def number_token_def Token_def single_def Let_def
        lex_identifier_def keywords_get_not_NUMBER
      split: if_splits sum.splits prod.splits dest: number_value)

lemma get_next_token_number: "get_next_token l = Inr (t, l1) \<Longrightarrow> number_token t"
proof (induction l rule: get_next_token.induct)
  case (1 l)
  from "1.prems" have "(case current_char l of
        None \<Rightarrow> Inr (Token EOF VNone (line l) (column l), l)
      | Some c \<Rightarrow>
          if isspace c then get_next_token (skip_whitespace l)
          else if c = 35 then get_next_token (skip_comment l)
          else scan_token c l) = Inr (t, l1)"
    by (subst (asm) get_next_token.simps)
  with "1.IH" show ?case
    by (auto simp: number_token_def Token_def split: option.splits if_splits
        dest: scan_token_number)
qed


text \<open>
  The shapes of the grammar: an expression is built from numbers, strings, variables and
  binary operations; a condition is an expression or one comparison of two expressions;
  a statement has expressions where the grammar has \<open>expr\<close>, conditions where it has
  \<open>comparison\<close> and statements in its blocks.
\<close>

fun is_expr :: "ast \<Rightarrow> bool" where
  "is_expr (Number v) = is_number v"
| "is_expr (String t) = True"
| "is_expr (Variable name) = True"
| "is_expr (BinOp left op right) = (is_expr left \<and> is_expr right)"
| "is_expr _ = False"

fun is_comparison :: "ast \<Rightarrow> bool" where
  "is_comparison (Comparison left op right) = (is_expr left \<and> is_expr right)"
| "is_comparison node = is_expr node"

fun is_statement :: "ast \<Rightarrow> bool" where
  "is_statement (Print e) = is_expr e"
| "is_statement (Assign var e) = is_expr e"
| "is_statement (If condition true_block false_block) =
     (is_comparison condition \<and> (\<forall>stmt \<in> set true_block. is_statement stmt)
      \<and> (\<forall>stmts \<in> set_option false_block. \<forall>stmt \<in> set stmts. is_statement stmt))"
| "is_statement (While condition body) =
     (is_comparison condition \<and> (\<forall>stmt \<in> set body. is_statement stmt))"
| "is_statement (Import name) = True"
| "is_statement (TryCatch try_block catch_block error_var) =
     ((\<forall>stmt \<in> set try_block. is_statement stmt) \<and> (\<forall>stmt \<in> set catch_block. is_statement stmt))"
| "is_statement _ = False"

text \<open>
  \<open>returns m Q\<close>: if the computation \<open>m\<close> returns a result, the result satisfies \<open>Q\<close>.
  \<open>parsed P\<close> holds of a node that satisfies \<open>P\<close> together with a parser whose current
  token is as above.
\<close>

lemma bind_Return:
  assumes "bind m f = Return y"
  obtains x where "m = Return x" "f x = Return y"
  using assms by (cases m) auto

lemma eat_number:
  assumes "eat p tt = Return p1"
  shows "number_token (current_token p1)"
  using assms
  by (auto simp: eat_def split: if_splits sum.splits dest: get_next_token_number)

lemma factor_is_expr:
  "factor n p = Return (a, p') \<Longrightarrow> number_token (current_token p)
   \<Longrightarrow> is_expr a \<and> number_token (current_token p')"
  "term_loop n node p = Return (a, p') \<Longrightarrow> is_expr node \<Longrightarrow> number_token (current_token p)
   \<Longrightarrow> is_expr a \<and> number_token (current_token p')"
  "term' n p = Return (a, p') \<Longrightarrow> number_token (current_token p)
   \<Longrightarrow> is_expr a \<and> number_token (current_token p')"
  "expr_loop n node p = Return (a, p') \<Longrightarrow> is_expr node \<Longrightarrow> number_token (current_token p)
   \<Longrightarrow> is_expr a \<and> number_token (current_token p')"
  "expr n p = Return (a, p') \<Longrightarrow> number_token (current_token p)
   \<Longrightarrow> is_expr a \<and> number_token (current_token p')"
proof (induction n p and n node p and n p and n node p and n p
    arbitrary: a p' and a p' and a p' and a p' and a p'
    rule: factor_term_loop_term'_expr_loop_expr.induct)
  case (1 p)
  then show ?case by simp
next
  case (2 n p)
  from 2(2,3) 2(1) show ?case
    by (auto simp: Let_def number_token_def [of "current_token p"]
        split: if_splits elim!: bind_Return dest: eat_number)
next
  case (3 node p)
  then show ?case by simp
next
  case (4 n node p)
  from 4(3,4,5) 4(1,2) show ?case
    by (auto simp: Let_def split: if_splits elim!: bind_Return dest: eat_number)
next
  case (5 p)
  then show ?case by simp
next
  case (6 n p)
  from 6(3,4) 6(1,2) show ?case
    by (auto elim!: bind_Return)
next
  case (7 node p)
  then show ?case by simp
next
  case (8 n node p)
  from 8(3,4,5) 8(1,2) show ?case
    by (auto simp: Let_def split: if_splits elim!: bind_Return dest: eat_number)
next
  case (9 p)
  then show ?case by simp
next
  case (10 n p)
  from 10(3,4) 10(1,2) show ?case
    by (auto elim!: bind_Return)
qed



lemma is_expr_comparison: "is_expr a \<Longrightarrow> is_comparison a"
  by (cases a) auto

definition returns :: "'a result \<Rightarrow> ('a \<Rightarrow> bool) \<Rightarrow> bool" where
  "returns m Q = (\<forall>x. m = Return x \<longrightarrow> Q x)"

lemma returns_Return: "Q x \<Longrightarrow> returns (Return x) Q"
  by (simp add: returns_def)

lemma returns_Raise [simp]: "returns (Raise e) Q"
  by (simp add: returns_def)

lemma returns_OutOfFuel [simp]: "returns OutOfFuel Q"
  by (simp add: returns_def)

lemma returns_bind:
  "returns m Q \<Longrightarrow> (\<And>x. Q x \<Longrightarrow> returns (f x) R) \<Longrightarrow> returns (bind m f) R"
  by (cases m) (auto simp: returns_def)

lemma returnsD: "returns m Q \<Longrightarrow> m = Return x \<Longrightarrow> Q x"
  by (simp add: returns_def)

definition parsed :: "(ast \<Rightarrow> bool) \<Rightarrow> ast \<times> parser \<Rightarrow> bool" where
  "parsed P x = (P (fst x) \<and> number_token (current_token (snd x)))"

lemma returns_eat: "returns (eat p tt) (\<lambda>p1. number_token (current_token p1))"
  by (auto simp: returns_def dest: eat_number)

lemma returns_expr:
  "number_token (current_token p) \<Longrightarrow> returns (expr n p) (parsed is_expr)"
  using factor_is_expr(5) [of n p] by (auto simp: returns_def parsed_def)

lemmas then_eat = returns_bind [OF returns_eat]
lemmas then_expr = returns_bind [OF returns_expr]

lemma returns_comparison:
  assumes "number_token (current_token p)"
  shows "returns (comparison n p) (parsed is_comparison)"
  unfolding comparison_def
  apply (rule then_expr [OF assms])
  apply (clarsimp simp: parsed_def Let_def is_expr_comparison returns_Return)
  apply (rule then_eat)
  apply (rule then_expr, assumption)
  apply (clarsimp simp: parsed_def returns_Return)
  done

lemmas then_comparison = returns_bind [OF returns_comparison]


lemma returns_if:
  "returns (if c then a else b) Q = ((c \<longrightarrow> returns a Q) \<and> (\<not> c \<longrightarrow> returns b Q))"
  by simp

lemma bind_if: "bind (if c then a else b) f = (if c then bind a f else bind b f)"
  by simp

lemma bind_assoc: "bind (bind m f) g = bind m (\<lambda>x. bind (f x) g)"
  by (cases m) auto

definition parsed_block :: "ast list \<times> parser \<Rightarrow> bool" where
  "parsed_block x = ((\<forall>stmt \<in> set (fst x). is_statement stmt) \<and> number_token (current_token (snd x)))"

lemma returns_statement:
  "number_token (current_token p) \<Longrightarrow> returns (statement n p) (parsed is_statement)"
  "number_token (current_token p) \<Longrightarrow> \<forall>stmt \<in> set stmts. is_statement stmt
   \<Longrightarrow> returns (block_loop n stmts p) parsed_block"
proof (induction n arbitrary: p stmts)
  case 0
  {
    case 1
    show ?case by simp
  next
    case 2
    show ?case by simp
  }
next
  case (Suc n)
  note then_block = returns_bind [OF Suc.IH(2)]
  {
    case 1
    then show ?case
      apply (simp only: statement.simps Let_def returns_if bind_if bind_assoc)
      apply (intro conjI impI)
      apply ((rule then_eat | rule then_expr | rule then_comparison | rule then_block
              | assumption | rule returns_Return | rule conjI | rule impI
              | clarsimp simp: parsed_def parsed_block_def returns_if bind_if bind_assoc)+)
      done
  next
    case 2
    then show ?case
      apply (simp only: block_loop.simps returns_if)
      apply (intro conjI impI)
       apply (rule returns_bind [OF Suc.IH(1)], assumption)
       apply (clarsimp simp: parsed_def)
       apply (rule Suc.IH(2), assumption)
       apply simp
      apply (rule returns_Return)
      apply (simp add: parsed_block_def)
      done
  }
qed


lemma returns_parse_loop:
  "number_token (current_token p) \<Longrightarrow> \<forall>stmt \<in> set stmts. is_statement stmt
   \<Longrightarrow> returns (parse_loop n stmts p) (\<lambda>tree. \<forall>stmt \<in> set tree. is_statement stmt)"
proof (induction n arbitrary: p stmts)
  case 0
  show ?case by simp
next
  case (Suc n)
  then show ?case
    apply (simp only: parse_loop.simps returns_if)
    apply (intro conjI impI)
     apply (rule returns_bind [OF returns_statement(1)], assumption)
     apply (clarsimp simp: parsed_def)
    apply (rule returns_Return)
    apply simp
    done
qed

lemma Parser_number: "Parser l = Inr p \<Longrightarrow> number_token (current_token p)"
  by (auto simp: Parser_def split: sum.splits dest: get_next_token_number)

lemma parse_text_statements:
  assumes "parse_text n src fname = Return tree"
  shows "\<forall>stmt \<in> set tree. is_statement stmt"
proof -
  from assms obtain p where p: "Parser (Lexer src fname) = Inr p"
    and t: "parse_loop n [] p = Return tree"
    by (cases "Parser (Lexer src fname)") (auto simp: parse_text_def parse_def)
  from p have "number_token (current_token p)" by (rule Parser_number)
  then have "returns (parse_loop n [] p) (\<lambda>tree. \<forall>stmt \<in> set tree. is_statement stmt)"
    by (rule returns_parse_loop) simp
  from returnsD [OF this t] show ?thesis .
qed

subsection \<open>What the evaluator binds\<close>

text \<open>
  A value that is an integer, a float or text, and an environment that binds names to
  such values only.
\<close>

fun is_data :: "pyvalue \<Rightarrow> bool" where
  "is_data (VInt i) = True"
| "is_data (VFloat x) = True"
| "is_data (VStr t) = True"
| "is_data _ = False"

definition data_env :: "state \<Rightarrow> bool" where
  "data_env s = (\<forall>(name, v) \<in> set (variables s). is_data v)"

lemma is_number_data: "is_number v \<Longrightarrow> is_data v"
  by (cases v) auto

lemma num_op_data: "num_op fi ff l r = Inr v \<Longrightarrow> is_data v"
  by (auto simp: num_op_def split: if_splits sum.splits)

lemma py_truediv_data: "py_truediv l r = Inr v \<Longrightarrow> is_data v"
  using py_truediv_cases [of l r] by auto

lemma binop_data: "binop op l r = Inr v \<Longrightarrow> is_data v"
  by (auto simp: binop_def split: if_splits dest: num_op_data py_truediv_data)

lemma data_env_lookup: "data_env s \<Longrightarrow> map_of (variables s) name = Some v \<Longrightarrow> is_data v"
  by (auto simp: data_env_def dest: map_of_SomeD)

lemma data_env_assign: "data_env s \<Longrightarrow> is_data v \<Longrightarrow> data_env (assign name v s)"
proof -
  have "set (setitem k v d) \<subseteq> insert (k, v) (set d)" for k v d
    by (induction d) (auto split: if_splits)
  then show "data_env s \<Longrightarrow> is_data v \<Longrightarrow> data_env (assign name v s)"
    by (fastforce simp: data_env_def)
qed

lemma data_env_update [simp]:
  "data_env (s\<lparr>stdout := out\<rparr>) = data_env s"
  "data_env (s\<lparr>imported_modules := im\<rparr>) = data_env s"
  "data_env (s\<lparr>opened := op\<rparr>) = data_env s"
  by (simp_all add: data_env_def)

lemma handle_ReturnD: "handle r = (Return v, s') \<Longrightarrow> r = (Return v, s')"
  by (cases r rule: handle.cases) auto

lemma visit_expr:
  "is_expr e \<Longrightarrow> data_env s \<Longrightarrow> visit fs n e s = (r, s')
   \<Longrightarrow> s' = s \<and> (\<forall>v. r = Return v \<longrightarrow> is_data v)"
proof (induction e arbitrary: r s' rule: is_expr.induct)
  case (1 v)
  then show ?case by (auto dest: is_number_data)
next
  case (2 t)
  then show ?case by auto
next
  case (3 name)
  then show ?case
    by (auto simp: visit_Variable_def Let_def split: option.splits
        dest: data_env_lookup)
next
  case (4 left op right)
  obtain rl sl where l: "visit fs n left s = (rl, sl)" by (cases "visit fs n left s")
  with 4 have sl: "sl = s" and dl: "\<forall>v. rl = Return v \<longrightarrow> is_data v" by auto
  obtain rr sr where r: "visit fs n right s = (rr, sr)" by (cases "visit fs n right s")
  with 4 have sr: "sr = s" and dr: "\<forall>v. rr = Return v \<longrightarrow> is_data v" by auto
  let ?X = "case visit fs n left s of
               (Return l, s1) \<Rightarrow>
                 (case visit fs n right s1 of
                    (Return r, s2) \<Rightarrow> raise_or_return (binop op l r) s2
                  | r \<Rightarrow> r)
             | r \<Rightarrow> r"
  from 4(5) have h: "handle ?X = (r, s')" by simp
  then obtain y where X: "?X = (y, s')" by (auto dest: handle_state)
  have "snd ?X = s"
    by (cases rl; cases rr; cases "binop op (case rl of Return a \<Rightarrow> a) (case rr of Return b \<Rightarrow> b)")
       (simp_all add: l r sl sr)
  with X have s': "s' = s" by simp
  have "is_data v" if "r = Return v" for v
  proof -
    from h that have "?X = (Return v, s')" by (auto dest: handle_ReturnD)
    then obtain a b where "binop op a b = Inr v"
      by (cases rl; cases rr; cases "binop op (case rl of Return a \<Rightarrow> a) (case rr of Return b \<Rightarrow> b)")
         (auto simp: l r sl sr)
    then show ?thesis by (rule binop_data)
  qed
  with s' show ?case by simp
qed simp_all


text \<open>
  An expression evaluates to such a value and leaves the state as it is; so does a
  condition leave the state as it is.
\<close>

lemma visit_comparison_state:
  assumes "is_comparison c" "data_env s" "visit fs n c s = (r, s')"
  shows "s' = s"
proof (cases "is_expr c")
  case True
  with assms(2,3) show ?thesis by (auto dest: visit_expr)
next
  case False
  with assms(1) obtain left op right where c: "c = Comparison left op right"
    and e: "is_expr left" "is_expr right"
    by (cases c) auto
  obtain rl sl where l: "visit fs n left s = (rl, sl)" by (cases "visit fs n left s")
  with e(1) assms(2) have sl: "sl = s" by (auto dest: visit_expr)
  obtain rr sr where r: "visit fs n right s = (rr, sr)" by (cases "visit fs n right s")
  with e(2) assms(2) have sr: "sr = s" by (auto dest: visit_expr)
  let ?X = "case visit fs n left s of
               (Return l, s1) \<Rightarrow>
                 (case visit fs n right s1 of
                    (Return r, s2) \<Rightarrow> raise_or_return (compare op l r) s2
                  | r \<Rightarrow> r)
             | r \<Rightarrow> r"
  from assms(3) c have "handle ?X = (r, s')" by simp
  then obtain y where X: "?X = (y, s')" by (auto dest: handle_state)
  have "snd ?X = s"
    by (cases rl; cases rr;
        cases "compare op (case rl of Return a \<Rightarrow> a) (case rr of Return b \<Rightarrow> b)")
       (simp_all add: l r sl sr)
  with X show ?thesis by simp
qed

text \<open>
  Statements of the shape of the grammar keep the environment free of booleans: \<open>Assign\<close>
  binds the value of an expression, \<open>TryCatch\<close> binds text, and an imported module is
  parsed by the same parser.
\<close>

lemma statements_keep_data:
  "is_statement node \<Longrightarrow> data_env s \<Longrightarrow> visit fs n node s = (r, s') \<Longrightarrow> data_env s'"
  "\<forall>stmt \<in> set stmts. is_statement stmt \<Longrightarrow> data_env s
   \<Longrightarrow> visit_block fs n stmts s = (r, s') \<Longrightarrow> data_env s'"
  "is_comparison c \<Longrightarrow> \<forall>stmt \<in> set b. is_statement stmt \<Longrightarrow> data_env s
   \<Longrightarrow> while_loop fs n c b i s = (r, s') \<Longrightarrow> data_env s'"
proof (induction fs n node s and fs n stmts s and fs n c b i s
    arbitrary: r s' and r s' and r s' rule: visit_visit_block_while_loop.induct)
  case (1 fs n v s)
  then show ?case by simp
next
  case (2 fs n v s)
  then show ?case by simp
next
  case (3 fs n name s)
  then show ?case by simp
next
  case (4 fs n var e0 s)
  obtain re se where e: "visit fs n e0 s = (re, se)" by (cases "visit fs n e0 s")
  with 4(2,3) have "se = s" "\<forall>v. re = Return v \<longrightarrow> is_data v"
    by (auto dest: visit_expr)
  with 4(3,4) e show ?case
    by (cases re) (auto dest!: handle_state intro: data_env_assign)
next
  case (5 fs n e0 s)
  obtain re se where e: "visit fs n e0 s = (re, se)" by (cases "visit fs n e0 s")
  with 5(2,3) have "se = s" by (auto dest: visit_expr)
  with 5(3,4) e show ?case
    by (cases re) (auto dest!: handle_state)
next
  case (6 fs n left op right s)
  then show ?case by simp
next
  case (7 fs n left op right s)
  then show ?case by simp
next
  case (8 fs n condition true_block false_block s)
  obtain rc sc where c: "visit fs n condition s = (rc, sc)" by (cases "visit fs n condition s")
  with 8(4,5) have sc: "sc = s" by (auto dest: visit_comparison_state)
  from 8(6) c sc 8(4,5) 8(2,3) show ?case
    by (auto dest!: handle_state split: result.splits pyvalue.splits if_splits option.splits)
next
  case (9 fs n condition body s)
  from 9(2,3,4) 9(1) show ?case
    by (auto dest!: handle_state)
next
  case (10 fs n name s)
  show ?case
  proof (cases "name \<in> imported_modules s")
    case True
    with 10(3,4) show ?thesis by auto
  next
    case False
    let ?s1 = "s\<lparr>imported_modules := insert name (imported_modules s)\<rparr>"
    have IH: "data_env s3"
      if "n = Suc m" "find_module fs name = Inr (Some path)" "fs_read fs path = Inr code"
        "parse_text m code path = Return tree"
        "visit_block fs m tree (?s1\<lparr>opened := opened ?s1 @ [path], imported_modules := {}\<rparr>)
         = (r3, s3)"
      for m path code tree r3 s3
    proof (rule 10(1) [OF False refl that(2) refl refl that(3) that(1) that(4) _ _ that(5)])
      from that(4) show "\<forall>a \<in> set tree. is_statement a"
        by (rule parse_text_statements)
      from 10(3) show "data_env (?s1\<lparr>opened := opened ?s1 @ [path], imported_modules := {}\<rparr>)"
        by simp
    qed
    from 10(4) False obtain y where
      "(case find_module fs name of
                Inl e \<Rightarrow> (Raise e, ?s1)
              | Inr None \<Rightarrow>
                  (Raise (RuntimeError ([25214, 19981, 21040, 27169, 22359, 58, 32] @ name)), ?s1)
              | Inr (Some module_path) \<Rightarrow>
                  (let s2 = ?s1\<lparr>opened := opened ?s1 @ [module_path]\<rparr>
                   in case fs_read fs module_path of
                        Inl msg \<Rightarrow>
                          (Raise (RuntimeError
                             ([26080, 27861, 35835, 21462, 27169, 22359, 25991, 20214, 32, 39]
                              @ module_path @ [39, 58, 32] @ msg)), s2)
                      | Inr module_code \<Rightarrow>
                          (case n of
                             0 \<Rightarrow> (OutOfFuel, s2)
                           | Suc m \<Rightarrow>
                               (case parse_text m module_code module_path of
                                  OutOfFuel \<Rightarrow> (OutOfFuel, s2)
                                | Raise e \<Rightarrow>
                                    (Raise (if is_MyLangError e then import_error name e
                                            else e), s2)
                                | Return tree \<Rightarrow>
                                    (case visit_block fs m tree (s2\<lparr>imported_modules := {}\<rparr>) of
                                       (Raise e, s3) \<Rightarrow>
                                         (Raise (if is_MyLangError e then import_error name e
                                                 else e),
                                          s3\<lparr>imported_modules := imported_modules s2\<rparr>)
                                     | (r, s3) \<Rightarrow>
                                         (r, s3\<lparr>imported_modules := imported_modules s2\<rparr>)))))) = (y, s')"
      by (auto simp: Let_def dest!: handle_state)
    with 10(3) IH show ?thesis
      by (auto simp: Let_def
          split: sum.splits option.splits nat.splits result.splits prod.splits)
  qed
next
  case (11 fs n try_block catch_block error_var s)
  obtain rt st where t: "visit_block fs n try_block s = (rt, st)"
    by (cases "visit_block fs n try_block s")
  with 11(1) 11(3,4) have dt: "data_env st" by auto
  then have "data_env (assign error_var (VStr m) st)" for m
    by (rule data_env_assign) simp
  with 11(5) t dt 11(3) 11(2) show ?case
    by (cases rt) (auto dest!: handle_state)
next
  case (12 fs n s)
  then show ?case by simp
next
  case (13 fs n stmt stmts s)
  obtain r1 s1 where v: "visit fs n stmt s = (r1, s1)" by (cases "visit fs n stmt s")
  with 13(1) 13(3,4) have d1: "data_env s1" by auto
  with 13(5) v 13(3) 13(2) show ?case
    by (cases r1) auto
next
  case (14 fs n condition body iterations s)
  from 14(7) have w: "(case visit fs n condition s of
        (Return c, s1) \<Rightarrow>
          if truthy c then
            (case visit_block fs n body s1 of
               (Return v, s2) \<Rightarrow>
                 if 10000 < iterations + 1
                 then (Raise (RuntimeError
                         [24490, 29615, 27425, 25968, 36807, 22810, 65292, 21487, 33021, 38519,
                          20837, 26080, 38480, 24490, 29615]), s2)
                 else while_loop fs n condition body (iterations + 1) s2
             | r \<Rightarrow> r)
          else (Return VNone, s1)
      | r \<Rightarrow> r) = (r, s')"
    by (subst (asm) while_loop.simps)
  obtain rc sc where c: "visit fs n condition s = (rc, sc)" by (cases "visit fs n condition s")
  with 14(4,6) have sc: "sc = s" by (auto dest: visit_comparison_state)
  obtain rb sb where b: "visit_block fs n body s = (rb, sb)"
    by (cases "visit_block fs n body s")
  from w c sc b 14(4,5,6) 14(2,3) show ?case
    by (auto split: result.splits if_splits)
qed


text \<open>
  Claim C9: after the statements parsed from any source text have run (to completion, to
  an exception or to the end of the fuel) in an environment whose values are integers,
  fractions and text, the empty one for instance, every value bound to a name is an
  integer, a fraction or text.
\<close>

theorem C9_environment_holds_data:
  assumes "parse_text m src fname = Return tree"
    and "data_env s"
    and "Interpreter_interpret fs n tree s = (r, s')"
  shows "\<forall>name v. map_of (variables s') name = Some v
           \<longrightarrow> (\<exists>i. v = VInt i) \<or> (\<exists>x. v = VFloat x) \<or> (\<exists>t. v = VStr t)"
proof (intro allI impI)
  fix name v
  assume "map_of (variables s') name = Some v"
  moreover from assms(1) have "\<forall>stmt \<in> set tree. is_statement stmt"
    by (rule parse_text_statements)
  then have "data_env s'"
    using assms(2,3) unfolding Interpreter_interpret_def by (rule statements_keep_data)
  ultimately have "is_data v" by (auto dest: data_env_lookup)
  then show "(\<exists>i. v = VInt i) \<or> (\<exists>x. v = VFloat x) \<or> (\<exists>t. v = VStr t)"
    by (cases v) auto
qed

text \<open>
  A program that assigns a sum, fails in a try-block and assigns a concatenation in the
  catch-block; its tree; and the state in which it ends.
\<close>

definition sample_text :: pystr where
  "sample_text = [120, 32, 61, 32, 50, 32, 43, 32, 51, 32, 42, 32, 52, 59, 32, 23581, 35797, 32, 123, 32, 121, 32, 61, 32, 120, 32, 47, 32, 48, 59, 32, 125, 32, 25429, 33719, 32, 40, 101, 41, 32, 123, 32, 122, 32, 61, 32, 34, 118, 61, 34, 32, 43, 32, 120, 59, 32, 125]"

definition sample_tree :: "ast list" where
  "sample_tree =
     [Assign (ascii ''x'')
        (BinOp (Number (VInt 2)) (ascii ''+'') (BinOp (Number (VInt 3)) (ascii ''*'') (Number (VInt 4)))),
      TryCatch [Assign (ascii ''y'') (BinOp (Variable (ascii ''x'')) (ascii ''/'') (Number (VInt 0)))]
        [Assign (ascii ''z'') (BinOp (String (ascii ''v='')) (ascii ''+'') (Variable (ascii ''x'')))]
        (ascii ''e'')]"

definition sample_end :: state where
  "sample_end = Interpreter\<lparr>variables :=
     [(ascii ''x'', VInt 14), (ascii ''e'', VStr [38500, 20197, 38646, 38169, 35823]),
      (ascii ''z'', VStr (ascii ''v=14''))]\<rparr>"

theorem C9_environment_holds_data_witness:
  "parse_text 12 sample_text (ascii ''main.mylang'') = Return sample_tree
 \<and> data_env Interpreter
 \<and> Interpreter_interpret no_files 0 sample_tree Interpreter = (Return VNone, sample_end)
 \<and> map_of (variables sample_end) (ascii ''z'') = Some (VStr (ascii ''v=14''))
 \<and> ((\<exists>i. VStr (ascii ''v=14'') = VInt i) \<or> (\<exists>x. VStr (ascii ''v=14'') = VFloat x)
      \<or> (\<exists>t. VStr (ascii ''v=14'') = VStr t))"
proof -
  have a: "parse_text 12 sample_text (ascii ''main.mylang'') = Return sample_tree"
    by (simp add: sample_text_def sample_tree_def parser_eval lexer_eval cong: bind_weak_cong)
  have b: "data_env Interpreter"
    by (simp add: data_env_def Interpreter_def)
  have c: "Interpreter_interpret no_files 0 sample_tree Interpreter = (Return VNone, sample_end)"
    by (simp add: Interpreter_interpret_def sample_tree_def sample_end_def visit_eval
          str_int_def str_nat.simps)
  have d: "map_of (variables sample_end) (ascii ''z'') = Some (VStr (ascii ''v=14''))"
    by (simp add: sample_end_def ascii_def)
  from C9_environment_holds_data [OF a b c] d
  have "(\<exists>i. VStr (ascii ''v=14'') = VInt i) \<or> (\<exists>x. VStr (ascii ''v=14'') = VFloat x)
      \<or> (\<exists>t. VStr (ascii ''v=14'') = VStr t)"
    by blast
  with a b c d show ?thesis by blast
qed

end
